theory Spec2Isabelle
  imports Complex_Main "HOL-Library.Signed_Division" "HOL-Library.Multiset"
begin

section \<open>Go integers\<close>

text \<open>
  File sizes, part sizes, offsets and part counts are \<open>int64\<close> in \<open>upload.go\<close>.
  They are modelled as \<open>int\<close> with the two's complement wrap-around of every
  \<open>int64\<close> operation written out by \<open>wrap64\<close>. Go's \<open>/\<close> and \<open>%\<close>
  truncate towards zero: they are \<open>sdiv\<close> and \<open>smod\<close>. A division by zero
  is a run-time panic and is a branch of the model wherever the code divides.
\<close>

definition wrap64 :: "int \<Rightarrow> int" where
  "wrap64 x = (x + 2 ^ 63) mod 2 ^ 64 - 2 ^ 63"

definition MaxInt64 :: int where
  "MaxInt64 = 2 ^ 63 - 1"

section \<open>The part plan (upload.go, lines 193-196 and 219-224)\<close>

text \<open>
  \<^verbatim>\<open>
  totalParts := fileSize / u.partSize
  if fileSize%u.partSize != 0 {
      totalParts++
  }
  \<close>
  The caller has checked that \<open>partSize\<close> is not zero.
\<close>

definition totalParts_of :: "int \<Rightarrow> int \<Rightarrow> int" where
  "totalParts_of fileSize partSize =
     (let totalParts = wrap64 (fileSize sdiv partSize)
      in if fileSize smod partSize \<noteq> 0 then wrap64 (totalParts + 1) else totalParts)"

text \<open>
  \<^verbatim>\<open>
  start := i * u.partSize
  end := start + u.partSize
  if end > fileSize {
      end = fileSize
  }
  \<close>
\<close>

definition part_start :: "int \<Rightarrow> int \<Rightarrow> int" where
  "part_start partSize i = wrap64 (i * partSize)"

definition part_end :: "int \<Rightarrow> int \<Rightarrow> int \<Rightarrow> int" where
  "part_end fileSize partSize i =
     (let end = wrap64 (part_start partSize i + partSize)
      in if end > fileSize then fileSize else end)"

text \<open>
  The loop \<^verbatim>\<open>for i := int64(0); i < totalParts; i++\<close>: the tasks it dispatches, in
  dispatch order, as triples (partNumber, start, end), the arguments of the goroutine.
  The counter never wraps: \<open>i < totalParts \<le> MaxInt64\<close>.
\<close>

function plan_loop :: "int \<Rightarrow> int \<Rightarrow> int \<Rightarrow> int \<Rightarrow> (int \<times> int \<times> int) list" where
  "plan_loop fileSize partSize totalParts i =
     (if i < totalParts
      then (i, part_start partSize i, part_end fileSize partSize i)
             # plan_loop fileSize partSize totalParts (i + 1)
      else [])"
  by pat_completeness auto
termination
  by (relation "measure (\<lambda>(fileSize, partSize, totalParts, i). nat (totalParts - i))") auto

declare plan_loop.simps [simp del]

definition plan :: "int \<Rightarrow> int \<Rightarrow> (int \<times> int \<times> int) list" where
  "plan fileSize partSize =
     plan_loop fileSize partSize (totalParts_of fileSize partSize) 0"

section \<open>Data of package types\<close>

text \<open>
  Modelled from the spec: the package \<open>uploader/pkg/types\<close> is not among the
  sources. The records below carry the fields that \<open>upload.go\<close> reads and writes
  (\<open>PartFile\<close> is the spec's PartRecord, \<open>FilePayload\<close> its FileManifest);
  Go's \<open>int\<close> and \<open>int64\<close> fields are \<open>int\<close>.
\<close>

record PartFile =
  Name :: string
  PartId :: int
  PartNo :: int
  Size :: int
  ChannelID :: int
  Encrypted :: bool
  Salt :: string

record FilePart =
  ID :: int
  PartNo :: int
  Salt :: string

record FilePayload =
  Name :: string
  Type :: string
  Parts :: "FilePart list"
  MimeType :: string
  Path :: string
  Size :: int
  ChannelID :: int
  Encrypted :: bool

text \<open>\<open>types.UploadFile\<close>, the body of \<open>GET /api/uploads/<hash>\<close>.\<close>

record UploadFile_body =
  Parts :: "PartFile list"

text \<open>\<open>types.ReadMetadataResponse\<close>; of its files only the number is read here.\<close>

record ReadMetadataResponse =
  Files :: "string list"

section \<open>The service (upload.go, lines 38-70)\<close>

text \<open>
  The fields \<open>http\<close>, \<open>ctx\<close>, \<open>Progress\<close>, \<open>wg\<close> and \<open>logger\<close> are the
  collaborators of section \<open>The environment\<close>. Of the channel \<open>concurrentFiles\<close>
  the record keeps the capacity, of the pacer its number of retries.
\<close>

record UploadService =
  numWorkers :: int
  concurrentFiles :: int
  partSize :: int
  encryptFiles :: bool
  randomisePart :: bool
  channelID :: int
  deleteAfterUpload :: bool
  pacer :: nat

text \<open>
  \<open>NewUploadService\<close>: \<^verbatim>\<open>make(chan struct{}, numTransfers)\<close> panics on a negative
  size (\<open>None\<close>). The channel of part workers is not made here.
\<close>

definition NewUploadService ::
  "int \<Rightarrow> int \<Rightarrow> int \<Rightarrow> bool \<Rightarrow> bool \<Rightarrow> int \<Rightarrow> bool \<Rightarrow> nat \<Rightarrow> UploadService option" where
  "NewUploadService numWorkers' numTransfers partSize' encryptFiles' randomisePart' channelID'
       deleteAfterUpload' pacer' =
     (if numTransfers < 0 then None
      else Some \<lparr>numWorkers = numWorkers', concurrentFiles = numTransfers, partSize = partSize',
                 encryptFiles = encryptFiles', randomisePart = randomisePart',
                 channelID = channelID', deleteAfterUpload = deleteAfterUpload',
                 pacer = pacer'\<rparr>)"

section \<open>Errors, replies and retries (upload.go, lines 29-36 and 72-77)\<close>

datatype error =
    PathError                 \<comment> \<open>\<open>os.Open\<close> or \<open>Seek\<close> failed\<close>
  | EOF                       \<comment> \<open>\<open>io.EOF\<close> of \<open>file.Read\<close>\<close>
  | CallError bool            \<comment> \<open>an error of \<open>CallJSON\<close>; the flag is \<open>fserrors.ShouldRetry\<close> of it\<close>
  | ContextError              \<comment> \<open>the context is cancelled or past its deadline\<close>
  | UploadedPartsIncomplete   \<comment> \<open>\<^verbatim>\<open>fmt.Errorf("uploaded parts incomplete")\<close>\<close>

text \<open>
  What one \<open>u.http.CallJSON\<close> hands back: \<open>Fails e resp v\<close> is a non-nil error with
  the response (its status code, \<open>None\<close> for a nil response), \<open>Answers status v\<close>
  a nil error with the response; the client returns a response whenever it returns no
  error. \<open>v\<close> is the value of the variable the body is decoded into, after the call.
  A context in error, which \<open>fserrors.ContextError\<close> reports whatever the call
  returned, is the reply \<open>Fails ContextError\<close>.
\<close>

datatype 'a reply = Fails error "int option" 'a | Answers int 'a

fun resp :: "'a reply \<Rightarrow> int option" where
  "resp (Fails e r v) = r"
| "resp (Answers status v) = Some status"

fun val :: "'a reply \<Rightarrow> 'a" where
  "val (Fails e r v) = v"
| "val (Answers status v) = v"

definition retryErrorCodes :: "int list" where
  "retryErrorCodes = [429, 500, 502, 503, 504, 509]"

text \<open>\<open>fserrors.ShouldRetryHTTP(resp, retryErrorCodes)\<close>\<close>

fun ShouldRetryHTTP :: "int option \<Rightarrow> bool" where
  "ShouldRetryHTTP None = False"
| "ShouldRetryHTTP (Some status) = (status \<in> set retryErrorCodes)"

text \<open>\<open>shouldRetry\<close> returns the pair (retry, err).\<close>

fun shouldRetry :: "'a reply \<Rightarrow> bool \<times> error option" where
  "shouldRetry (Fails ContextError r v) = (False, Some ContextError)"
| "shouldRetry (Fails (CallError again) r v) = (again \<or> ShouldRetryHTTP r, Some (CallError again))"
| "shouldRetry (Fails e r v) = (ShouldRetryHTTP r, Some e)"
| "shouldRetry (Answers status v) = (ShouldRetryHTTP (Some status), None)"

text \<open>
  \<open>u.pacer.Call(fn)\<close> (rclone's pacer, outside the sources): \<open>fn\<close> is called, and
  called again while it asks for a retry, at most \<open>retries\<close> more times; the error
  of the last call is the result. \<open>fn k\<close> is the reply to the attempt number \<open>k\<close>.
  The model returns the replies of the attempts made, in order.
\<close>

fun pacer_attempts :: "(nat \<Rightarrow> 'a reply) \<Rightarrow> nat \<Rightarrow> nat \<Rightarrow> 'a reply list" where
  "pacer_attempts fn k 0 = [fn k]"
| "pacer_attempts fn k (Suc n) =
     (if fst (shouldRetry (fn k)) then fn k # pacer_attempts fn (Suc k) n else [fn k])"

definition pacer_Call :: "UploadService \<Rightarrow> (nat \<Rightarrow> 'a reply) \<Rightarrow> 'a reply list" where
  "pacer_Call u fn = pacer_attempts fn 0 (pacer u)"

section \<open>Effects\<close>

text \<open>
  The parameters of a part upload: the \<open>url.Values\<close> of lines 271-277, with numbers
  and flags before \<open>strconv\<close> formats them, and the content length.
\<close>

record PartParams =
  q_partName :: string
  q_fileName :: string
  q_partNo :: int
  q_channelId :: int
  q_encrypted :: bool
  ContentLength :: int

datatype request =
    FindFile string string           \<comment> \<open>\<open>GET /api/files?op=find\<close>, path and name\<close>
  | GetSession string                \<comment> \<open>\<open>GET\<close> of the upload URL\<close>
  | PostPart string PartParams       \<comment> \<open>\<open>POST\<close> to the upload URL, one part\<close>
  | PostFiles FilePayload            \<comment> \<open>\<open>POST /api/files\<close>, the manifest\<close>
  | DeleteSession string             \<comment> \<open>\<open>DELETE\<close> of the upload URL\<close>

datatype level = DebugLevel | InfoLevel | ErrorLevel | FatalLevel

text \<open>
  What \<open>UploadFile\<close> does to the world, in order: every HTTP request sent through
  \<open>u.http.CallJSON\<close> (one event per attempt), every log entry, and every signal to the
  progress bar and to \<open>u.Progress\<close>. The bytes that the bar's \<open>ProxyReader\<close> counts
  while a part's body is read are inside the transfer and are not events.
\<close>

datatype event =
    Request request
  | Log level string
  | AddBar string int
  | BarIncrInt64 int
  | BarFinish
  | BarAbort
  | BarClose
  | AddExisting int

fun is_network :: "event \<Rightarrow> bool" where
  "is_network (Request r) = True"
| "is_network e = False"

fun is_part_upload :: "event \<Rightarrow> bool" where
  "is_part_upload (Request (PostPart url params)) = True"
| "is_part_upload e = False"

fun is_commit :: "event \<Rightarrow> bool" where
  "is_commit (Request (PostFiles payload)) = True"
| "is_commit e = False"

fun is_log :: "event \<Rightarrow> bool" where
  "is_log (Log l msg) = True"
| "is_log e = False"

datatype outcome =
    Return "error option"   \<comment> \<open>the function returns this error (\<open>None\<close> is nil)\<close>
  | Panic                   \<comment> \<open>a run-time panic\<close>
  | Blocked                 \<comment> \<open>the function waits for ever\<close>

section \<open>The progress totals (package pb)\<close>

text \<open>
  The counters of \<open>progressState\<close> that \<open>AddExisting\<close> writes. \<open>existingBytes\<close> is
  a \<open>float64\<close>, read here as the real number it stands for: the rounding of sums
  beyond \<open>2 ^ 53\<close> is not modelled.
\<close>

record progressState =
  existing :: int
  existingBytes :: real

definition Progress_AddExisting :: "real \<Rightarrow> progressState \<Rightarrow> progressState" where
  "Progress_AddExisting size' p =
     p\<lparr>existingBytes := existingBytes p + size', existing := existing p + 1\<rparr>"

text \<open>The totals after a sequence of events.\<close>

fun progress_after :: "event list \<Rightarrow> progressState \<Rightarrow> progressState" where
  "progress_after [] p = p"
| "progress_after (AddExisting n # es) p = progress_after es (Progress_AddExisting (real_of_int n) p)"
| "progress_after (e # es) p = progress_after es p"

section \<open>The environment\<close>

text \<open>
  Everything \<open>UploadFile\<close> gets from outside: the local file system, the library
  functions whose results are only passed on, the remote API and the scheduler.
  \<^item> \<open>os_Open path\<close> is the content of the file, \<open>None\<close> when it cannot be opened;
    the file does not change during the upload, so \<open>Stat\<close> reports its length.
  \<^item> \<open>worker_Open i\<close> and \<open>worker_Seek i\<close> say whether the part task \<open>i\<close>
    can open the file again and seek to its offset.
  \<^item> \<open>find\<close>, \<open>getSession\<close>, \<open>postFiles\<close> and \<open>deleteSession\<close> give the reply to
    each attempt of a call under the pacer; \<open>postPart\<close> is called once for a part.
  \<^item> \<open>order\<close> decides in which order the part tasks finish, see \<open>schedule\<close>.
\<close>

record env =
  os_Open :: "string \<Rightarrow> string option"
  worker_Open :: "int \<Rightarrow> bool"
  worker_Seek :: "int \<Rightarrow> bool"
  Base :: "string \<Rightarrow> string"
  DetectContentType :: "string \<Rightarrow> string"
  md5_hex :: "string \<Rightarrow> string \<Rightarrow> int \<Rightarrow> string"
  NewV4_hex :: "int \<Rightarrow> string"
  Sprintf_part :: "string \<Rightarrow> int \<Rightarrow> string"
  find :: "string \<Rightarrow> string \<Rightarrow> nat \<Rightarrow> ReadMetadataResponse reply"
  getSession :: "string \<Rightarrow> nat \<Rightarrow> UploadFile_body reply"
  postPart :: "string \<Rightarrow> PartParams \<Rightarrow> PartFile reply"
  postFiles :: "FilePayload \<Rightarrow> nat \<Rightarrow> unit reply"
  deleteSession :: "string \<Rightarrow> nat \<Rightarrow> unit reply"
  order :: "nat list"

text \<open>
  The part tasks run concurrently and finish in any order. \<open>schedule picks xs\<close> lists
  \<open>xs\<close> in the order the picks choose: each pick takes one of the tasks still running,
  and when the picks run out the rest finish in dispatch order. Every list of picks gives
  a permutation and every permutation is given by some picks, so a statement for all
  \<open>order\<close> covers every completion order (and some that a small worker pool excludes).
\<close>

function schedule :: "nat list \<Rightarrow> 'a list \<Rightarrow> 'a list" where
  "schedule picks [] = []"
| "schedule [] (x # xs) = x # xs"
| "schedule (p # picks) (x # xs) =
     (let k = p mod length (x # xs)
      in (x # xs) ! k # schedule picks (take k (x # xs) @ drop (Suc k) (x # xs)))"
  by pat_completeness auto
termination
  by (relation "measure (\<lambda>(picks, xs). length xs)") auto

section \<open>checkFileExists (upload.go, lines 79-108)\<close>

text \<open>The result is the triple of the events, \<open>exists\<close> and \<open>err\<close>.\<close>

definition checkFileExists ::
  "UploadService \<Rightarrow> env \<Rightarrow> string \<Rightarrow> string \<Rightarrow> event list \<times> bool \<times> error option" where
  "checkFileExists u env name path =
     (let attempts = pacer_Call u (find env path name);
          events = Log DebugLevel ''checking file exists''
                     # map (\<lambda>r. Request (FindFile path name)) attempts;
          answer = last attempts
      in case snd (shouldRetry answer) of
           Some err \<Rightarrow> (events, False, Some err)
         | None \<Rightarrow>
             (case resp answer of
                None \<Rightarrow> (events, False, None)
              | Some StatusCode \<Rightarrow>
                  if StatusCode \<noteq> 404 \<and> length (Files (val answer)) > 0
                  then (events, True, None)
                  else (events, False, None)))"

section \<open>UploadFile (upload.go, lines 110-355)\<close>

subsection \<open>Lines 111-161: open, read, existence check\<close>

text \<open>
  \<open>file.Read(buffer)\<close> on a buffer of \<open>n\<close> zero bytes: at the end of the file it
  returns \<open>io.EOF\<close>, otherwise the buffer holds the bytes read and zeros after them.
\<close>

definition file_Read :: "string \<Rightarrow> nat \<Rightarrow> error + string" where
  "file_Read file n =
     (if file = [] then Inl EOF
      else Inr (take n file @ replicate (n - length (take n file)) (CHR 0x00)))"

text \<open>
  The function either returns here (\<open>Inl\<close>, with the outcome and the events) or
  goes on with \<open>mimeType\<close>, \<open>fileSize\<close>, \<open>fileName\<close> and the events so far.
  The model follows the code after \<open>u.logger.Fatal\<close>, which returns the error;
  what the logger does to the process at that level is not in the sources.
  \<open>defer bar.Close()\<close> is the event \<open>BarClose\<close> at every return after line 147.
\<close>

definition UploadFile_init ::
  "UploadService \<Rightarrow> env \<Rightarrow> string \<Rightarrow> string
     \<Rightarrow> (outcome \<times> event list) + (string \<times> int \<times> string \<times> event list)" where
  "UploadFile_init u env filePath destDir =
     (case os_Open env filePath of
        None \<Rightarrow> Inl (Return (Some PathError), [Log FatalLevel ''open file failed''])
      | Some file \<Rightarrow>
          (case file_Read file 512 of
             Inl err \<Rightarrow> Inl (Return (Some err), [Log FatalLevel ''read file failed''])
           | Inr buffer \<Rightarrow>
               (let mimeType = DetectContentType env buffer;
                    fileSize = int (length file);
                    name = Base env filePath;
                    (checking, exists, err) = checkFileExists u env name destDir;
                    events = AddBar name fileSize # checking
                in case err of
                     Some e \<Rightarrow>
                       Inl (Return (Some e),
                            events @ [BarAbort, Log ErrorLevel ''check file exists failed'', BarClose])
                   | None \<Rightarrow>
                       if exists
                       then Inl (Return None,
                                 events @ [AddExisting fileSize, Log InfoLevel ''file exists'', BarClose])
                       else Inr (mimeType, fileSize, name, events))))"

subsection \<open>Lines 163-189: the upload session\<close>

text \<open>
  \<open>uploadURL\<close>: the path of the session. \<open>md5_hex\<close> of the environment stands for
  the hexadecimal MD5 sum of \<^verbatim>\<open>fmt.Sprintf("%s:%s:%d", fileName, destDir, fileSize)\<close>.
\<close>

definition uploadURL_of :: "env \<Rightarrow> string \<Rightarrow> string \<Rightarrow> int \<Rightarrow> string" where
  "uploadURL_of env name destDir fileSize = ''/api/uploads/'' @ md5_hex env name destDir fileSize"

text \<open>
  The result: the events, the variable \<open>uploadFile\<close> and the map \<open>existingParts\<close>
  (a nil map, which has no key, unless the lookup is made and returns no error).
\<close>

definition session_lookup ::
  "UploadService \<Rightarrow> env \<Rightarrow> string \<Rightarrow> int
     \<Rightarrow> event list \<times> UploadFile_body \<times> (int \<rightharpoonup> PartFile)" where
  "session_lookup u env uploadURL fileSize =
     (if partSize u < fileSize
      then
        (let attempts = pacer_Call u (getSession env uploadURL);
             uploadFile = val (last attempts);
             events = map (\<lambda>r. Request (GetSession uploadURL)) attempts
         in case snd (shouldRetry (last attempts)) of
              None \<Rightarrow>
                (events, uploadFile,
                 fold (\<lambda>part m. m(PartFile.PartNo part \<mapsto> part))
                   (UploadFile_body.Parts uploadFile) Map.empty)
            | Some err \<Rightarrow> (events, uploadFile, Map.empty))
      else ([], \<lparr>UploadFile_body.Parts = []\<rparr>, Map.empty))"

subsection \<open>Lines 229-291: the task of one part\<close>

text \<open>
  The goroutine for the part \<open>partNumber\<close> (0-based) with its byte range. The result:
  its events, and the record it sends on the channel \<open>uploadedParts\<close>, if it sends one.
  The part upload is one \<open>CallJSON\<close>, outside the pacer. \<open>part_opts\<close> are the
  parameters of the request (lines 256-278).
\<close>

definition part_opts ::
  "UploadService \<Rightarrow> env \<Rightarrow> string \<Rightarrow> int \<Rightarrow> int \<Rightarrow> bool \<Rightarrow> int \<Rightarrow> int \<Rightarrow> int \<Rightarrow> PartParams" where
  "part_opts u env name totalParts channelID' encryptFile partNumber start end =
     (let contentLength = wrap64 (end - start);
          partName =
            (if randomisePart u then NewV4_hex env partNumber
             else if totalParts > 1 then Sprintf_part env name (partNumber + 1)
             else name)
      in \<lparr>q_partName = partName, q_fileName = name, q_partNo = partNumber + 1,
          q_channelId = channelID', q_encrypted = encryptFile,
          ContentLength = contentLength\<rparr>)"

definition part_task ::
  "UploadService \<Rightarrow> env \<Rightarrow> string \<Rightarrow> string \<Rightarrow> (int \<rightharpoonup> PartFile) \<Rightarrow> int \<Rightarrow> int \<Rightarrow> bool
     \<Rightarrow> int \<Rightarrow> int \<Rightarrow> int \<Rightarrow> event list \<times> PartFile option" where
  "part_task u env name uploadURL existingParts totalParts channelID' encryptFile
       partNumber start end =
     (if \<not> worker_Open env partNumber then ([Log ErrorLevel ''open file failed''], None)
      else
        case existingParts (partNumber + 1) of
          Some existing' \<Rightarrow> ([BarIncrInt64 (PartFile.Size existing')], Some existing')
        | None \<Rightarrow>
            if \<not> worker_Seek env partNumber then ([Log ErrorLevel ''seek file failed''], None)
            else
              (let opts = part_opts u env name totalParts channelID' encryptFile
                            partNumber start end;
                   sent = Request (PostPart uploadURL opts)
               in case postPart env uploadURL opts of
                    Fails err r v \<Rightarrow> ([sent, Log ErrorLevel ''send part file failed''], None)
                  | Answers StatusCode partFile \<Rightarrow>
                      if StatusCode = 201
                      then ([sent, Log DebugLevel ''part file sent''], Some partFile)
                      else ([sent], None)))"

subsection \<open>Lines 294-299: collecting the channel\<close>

text \<open>
  \<^verbatim>\<open>
  for uploadPart := range uploadedParts {
      if uploadPart.PartId != 0 && uploadPart.Size != 0 {
          parts = append(parts, types.FilePart{...})
      }
  }
  \<close>
\<close>

fun collect :: "PartFile list \<Rightarrow> FilePart list \<Rightarrow> FilePart list" where
  "collect [] parts = parts"
| "collect (uploadPart # uploadedParts) parts =
     (if PartId uploadPart \<noteq> 0 \<and> PartFile.Size uploadPart \<noteq> 0
      then collect uploadedParts
             (parts @ [\<lparr>ID = PartId uploadPart, FilePart.PartNo = PartFile.PartNo uploadPart,
                        FilePart.Salt = PartFile.Salt uploadPart\<rparr>])
      else collect uploadedParts parts)"

subsection \<open>Lines 219-292: the loop that starts the tasks\<close>

text \<open>
  One task for each part of the plan. The result lists the tasks in the order in which
  they finish, each with its part number, its events and the record it sent.
\<close>

definition dispatch ::
  "UploadService \<Rightarrow> env \<Rightarrow> string \<Rightarrow> string \<Rightarrow> (int \<rightharpoonup> PartFile) \<Rightarrow> int \<Rightarrow> int \<Rightarrow> bool
     \<Rightarrow> int \<Rightarrow> (int \<times> event list \<times> PartFile option) list" where
  "dispatch u env name uploadURL existingParts totalParts channelID' encryptFile fileSize =
     schedule (order env)
       (map (\<lambda>(partNumber, start, end).
               (partNumber,
                part_task u env name uploadURL existingParts totalParts channelID' encryptFile
                  partNumber start end))
          (plan_loop fileSize (partSize u) totalParts 0))"

subsection \<open>Lines 163-299: planning, dispatching and collecting the parts\<close>

text \<open>
  The local variables when the function reaches line 301. \<open>c_results\<close> lists the part
  tasks in the order they finished, each with its part number, its events and the
  record it sent; \<open>c_uploadedParts\<close> is what the channel delivered, \<open>c_parts\<close> the
  slice \<open>parts\<close>, \<open>c_events\<close> the events of these lines.
\<close>

record collected =
  c_uploadURL :: string
  c_uploadFile :: UploadFile_body
  c_existingParts :: "int \<rightharpoonup> PartFile"
  c_totalParts :: int
  c_channelID :: int
  c_encryptFile :: bool
  c_results :: "(int \<times> event list \<times> PartFile option) list"
  c_uploadedParts :: "PartFile list"
  c_parts :: "FilePart list"
  c_events :: "event list"

text \<open>
  The ways not to reach line 301: \<open>fileSize / u.partSize\<close> panics when the part
  size is zero; \<open>make\<close> panics on a negative channel size (lines 198 and 199); with a
  pool of size zero the first \<^verbatim>\<open>concurrentWorkers <- struct{}{}\<close> (line 227) waits for
  a receiver that is never started. Otherwise every task is started, since each task
  gives its slot back, and every task ends, since each reply of the remote API arrives
  (a call that never returns is not modelled). The channel \<open>uploadedParts\<close> has room
  for one record of each task, so no task waits on it.
\<close>

definition UploadFile_parts ::
  "UploadService \<Rightarrow> env \<Rightarrow> string \<Rightarrow> int \<Rightarrow> string \<Rightarrow> (outcome \<times> event list) + collected" where
  "UploadFile_parts u env destDir fileSize name =
     (let uploadURL = uploadURL_of env name destDir fileSize;
          (looked, uploadFile, existingParts) = session_lookup u env uploadURL fileSize
      in if partSize u = 0 then Inl (Panic, looked @ [BarClose])
         else
           (let totalParts = totalParts_of fileSize (partSize u)
            in if totalParts < 0 \<or> numWorkers u < 0 then Inl (Panic, looked @ [BarClose])
               else
                 (let channelID' =
                        (if length (UploadFile_body.Parts uploadFile) > 0
                         then PartFile.ChannelID (UploadFile_body.Parts uploadFile ! 0)
                         else channelID u);
                      encryptFile =
                        (if length (UploadFile_body.Parts uploadFile) > 0
                         then PartFile.Encrypted (UploadFile_body.Parts uploadFile ! 0)
                         else encryptFiles u)
                  in if 0 < totalParts \<and> numWorkers u = 0 then Inl (Blocked, looked)
                     else
                       (let results =
                              dispatch u env name uploadURL existingParts totalParts
                                channelID' encryptFile fileSize;
                            uploadedParts = List.map_filter (\<lambda>(partNumber, events, sent). sent) results
                        in Inr \<lparr>c_uploadURL = uploadURL, c_uploadFile = uploadFile,
                                c_existingParts = existingParts, c_totalParts = totalParts,
                                c_channelID = channelID', c_encryptFile = encryptFile,
                                c_results = results, c_uploadedParts = uploadedParts,
                                c_parts = collect uploadedParts [],
                                c_events =
                                  looked
                                  @ concat (map (\<lambda>(partNumber, events, sent). events) results)
                                  @ [BarFinish]\<rparr>))))"

subsection \<open>Lines 301-355: completeness check, manifest, session clean-up\<close>

text \<open>
  \<open>manifest\<close> is \<open>filePayload\<close> (lines 308-321). \<open>sort.Slice\<close> with the order
  of \<open>PartNo\<close> is a sort by that key (a stable one here; the library promises a sorted
  permutation, and nothing below uses more). \<open>json.Marshal(filePayload)\<close> has no effect
  and cannot fail on a record of strings, numbers and flags, so line 325 never returns.
\<close>

definition manifest :: "string \<Rightarrow> string \<Rightarrow> int \<Rightarrow> string \<Rightarrow> collected \<Rightarrow> FilePayload" where
  "manifest destDir mimeType fileSize name c =
     (let parts = sort_key FilePart.PartNo (c_parts c)
      in \<lparr>FilePayload.Name = name, Type = ''file'', FilePayload.Parts = parts,
          MimeType = mimeType, Path = destDir, FilePayload.Size = fileSize,
          FilePayload.ChannelID = c_channelID c,
          FilePayload.Encrypted = c_encryptFile c\<rparr>)"

definition UploadFile_commit ::
  "UploadService \<Rightarrow> env \<Rightarrow> string \<Rightarrow> string \<Rightarrow> int \<Rightarrow> string \<Rightarrow> collected
     \<Rightarrow> outcome \<times> event list" where
  "UploadFile_commit u env destDir mimeType fileSize name c =
     (if int (length (c_parts c)) \<noteq> c_totalParts c
      then (Return (Some UploadedPartsIncomplete),
            c_events c @ [BarAbort, Log ErrorLevel ''uploaded parts incomplete'', BarClose])
      else
        (let filePayload = manifest destDir mimeType fileSize name c;
             posts = pacer_Call u (postFiles env filePayload);
             posted = c_events c @ map (\<lambda>r. Request (PostFiles filePayload)) posts
         in case snd (shouldRetry (last posts)) of
              Some err \<Rightarrow> (Return (Some err), posted @ [BarClose])
            | None \<Rightarrow>
                (let deletes = pacer_Call u (deleteSession env (c_uploadURL c));
                     deleted =
                       posted @ map (\<lambda>r. Request (DeleteSession (c_uploadURL c))) deletes
                 in case snd (shouldRetry (last deletes)) of
                      Some err \<Rightarrow> (Return (Some err), deleted @ [BarClose])
                    | None \<Rightarrow>
                        (Return None, deleted @ [Log InfoLevel ''file sent'', BarClose]))))"

subsection \<open>The whole function\<close>

definition UploadFile ::
  "UploadService \<Rightarrow> env \<Rightarrow> string \<Rightarrow> string \<Rightarrow> outcome \<times> event list" where
  "UploadFile u env filePath destDir =
     (case UploadFile_init u env filePath destDir of
        Inl stop \<Rightarrow> stop
      | Inr (mimeType, fileSize, name, events) \<Rightarrow>
          (case UploadFile_parts u env destDir fileSize name of
             Inl (out, later) \<Rightarrow> (out, events @ later)
           | Inr c \<Rightarrow>
               (case UploadFile_commit u env destDir mimeType fileSize name c of
                  (out, later) \<Rightarrow> (out, events @ later))))"

subsection \<open>The local variables at line 301\<close>

text \<open>\<open>None\<close> when the call returns, panics or waits for ever before that line.\<close>

definition reached :: "UploadService \<Rightarrow> env \<Rightarrow> string \<Rightarrow> string \<Rightarrow> collected option" where
  "reached u env filePath destDir =
     (case UploadFile_init u env filePath destDir of
        Inl stop \<Rightarrow> None
      | Inr (mimeType, fileSize, name, events) \<Rightarrow>
          (case UploadFile_parts u env destDir fileSize name of
             Inl stop \<Rightarrow> None
           | Inr c \<Rightarrow> Some c))"

section \<open>The two worker pools (upload.go, lines 58, 199, 226-233 and 506-513)\<close>

text \<open>
  The walker \<open>UploadFilesInDirectory\<close> takes a slot of \<open>u.concurrentFiles\<close>, the
  channel that \<open>NewUploadService\<close> makes once, before it starts \<open>UploadFile\<close> in a
  goroutine, and the goroutine gives the slot back when the call has returned. Every
  call of \<open>UploadFile\<close> makes a channel \<open>concurrentWorkers\<close> of its own, of capacity
  \<open>u.numWorkers\<close> (line 199); the loop takes a slot of it before it starts a part task
  (line 227) and the task gives the slot back when it ends (lines 231-233). A send on a
  full channel waits.

  One call of \<open>UploadFile\<close> in flight: the number of planned parts, the loop counter
  \<open>i\<close>, and the number of slots of its \<open>concurrentWorkers\<close> that are taken, which is
  the number of its part tasks started and not ended.
\<close>

record upload =
  u_totalParts :: int
  u_next :: int
  u_workers :: nat

text \<open>
  The state is the list of the calls in flight; its length is the number of slots of
  \<open>u.concurrentFiles\<close> that are taken. A step that would wait is not enabled
  (\<open>None\<close>).
\<close>

datatype pool_step =
    StartFile int     \<comment> \<open>the walker starts \<open>UploadFile\<close> for a file with this many parts\<close>
  | StartPart nat     \<comment> \<open>the loop of the call at this position starts its next part task\<close>
  | EndPart nat       \<comment> \<open>a part task of that call ends\<close>
  | EndFile nat       \<comment> \<open>that call returns\<close>

fun pool_next :: "UploadService \<Rightarrow> pool_step \<Rightarrow> upload list \<Rightarrow> upload list option" where
  "pool_next u (StartFile planned) s =
     (if int (length s) < concurrentFiles u
      then Some (s @ [\<lparr>u_totalParts = planned, u_next = 0, u_workers = 0\<rparr>])
      else None)"
| "pool_next u (StartPart k) s =
     (if k < length s \<and> u_next (s ! k) < u_totalParts (s ! k)
         \<and> int (u_workers (s ! k)) < numWorkers u
      then Some (s[k := (s ! k)\<lparr>u_next := u_next (s ! k) + 1,
                                u_workers := Suc (u_workers (s ! k))\<rparr>])
      else None)"
| "pool_next u (EndPart k) s =
     (if k < length s \<and> 0 < u_workers (s ! k)
      then Some (s[k := (s ! k)\<lparr>u_workers := u_workers (s ! k) - 1\<rparr>])
      else None)"
| "pool_next u (EndFile k) s =
     (if k < length s \<and> u_next (s ! k) = u_totalParts (s ! k) \<and> u_workers (s ! k) = 0
      then Some (take k s @ drop (Suc k) s)
      else None)"

fun pool_run :: "UploadService \<Rightarrow> pool_step list \<Rightarrow> upload list \<Rightarrow> upload list option" where
  "pool_run u [] s = Some s"
| "pool_run u (a # steps) s =
     (case pool_next u a s of None \<Rightarrow> None | Some s' \<Rightarrow> pool_run u steps s')"

text \<open>The part tasks in flight, over all the calls in flight.\<close>

definition in_flight :: "upload list \<Rightarrow> nat" where
  "in_flight s = sum_list (map u_workers s)"

text \<open>No channel holds more than its capacity.\<close>

definition pool_inv :: "UploadService \<Rightarrow> upload list \<Rightarrow> bool" where
  "pool_inv u s \<longleftrightarrow>
     (\<forall>f\<in>set s. int (u_workers f) \<le> numWorkers u) \<and> int (length s) \<le> concurrentFiles u"

section \<open>Concrete runs\<close>

text \<open>
  A service with parts of two bytes and a file of five bytes, \<open>''hello''\<close>: three
  parts, of 2, 2 and 1 bytes. In \<open>env0\<close> the file is not on the remote side, no
  session exists, every upload is acknowledged with status 201 and the third task
  finishes first. The other environments change one thing each.
\<close>

definition svc0 :: UploadService where
  "svc0 = \<lparr>numWorkers = 3, concurrentFiles = 2, partSize = 2, encryptFiles = False,
            randomisePart = False, channelID = 7, deleteAfterUpload = False, pacer = 2\<rparr>"

definition ack :: "PartParams \<Rightarrow> PartFile" where
  "ack q = \<lparr>PartFile.Name = q_partName q, PartId = 100 + q_partNo q,
            PartFile.PartNo = q_partNo q, PartFile.Size = ContentLength q,
            PartFile.ChannelID = q_channelId q, PartFile.Encrypted = q_encrypted q,
            PartFile.Salt = ''salt''\<rparr>"

definition env0 :: env where
  "env0 = \<lparr>os_Open = (\<lambda>path. if path = ''/tmp/hello'' then Some ''hello'' else None),
            worker_Open = (\<lambda>i. True), worker_Seek = (\<lambda>i. True),
            Base = (\<lambda>path. ''hello''), DetectContentType = (\<lambda>buffer. ''text/plain''),
            md5_hex = (\<lambda>name destDir fileSize. ''5d41402abc4b2a76b9719d911017c592''),
            NewV4_hex = (\<lambda>i. ''0123456789abcdef''),
            Sprintf_part = (\<lambda>name i. name @ ''.part''),
            find = (\<lambda>path name k. Answers 200 \<lparr>Files = []\<rparr>),
            getSession =
              (\<lambda>url k. Fails (CallError False) (Some 404) \<lparr>UploadFile_body.Parts = []\<rparr>),
            postPart = (\<lambda>url q. Answers 201 (ack q)),
            postFiles = (\<lambda>payload k. Answers 201 ()),
            deleteSession = (\<lambda>url k. Answers 200 ()),
            order = [2, 0]\<rparr>"

text \<open>A session that holds the parts 1 and 2, uploaded to channel 99 and encrypted.\<close>

definition stored :: "int \<Rightarrow> PartFile" where
  "stored n = \<lparr>PartFile.Name = ''hello.part'', PartId = 200 + n, PartFile.PartNo = n,
               PartFile.Size = 2, PartFile.ChannelID = 99, PartFile.Encrypted = True,
               PartFile.Salt = ''pepper''\<rparr>"

definition env_resume :: env where
  "env_resume =
     env0\<lparr>getSession := (\<lambda>url k. Answers 200 \<lparr>UploadFile_body.Parts = [stored 1, stored 2]\<rparr>)\<rparr>"

text \<open>The same session, but the task of the first part cannot open the file.\<close>

definition env_reopen_fails :: env where
  "env_reopen_fails = env_resume\<lparr>worker_Open := (\<lambda>i. i \<noteq> 0)\<rparr>"

text \<open>The upload of part 2 fails with a retriable error and status 503.\<close>

definition env_part_fails :: env where
  "env_part_fails =
     env0\<lparr>postPart :=
            (\<lambda>url q. if q_partNo q = 2 then Fails (CallError True) (Some 503) (ack q)
                      else Answers 201 (ack q))\<rparr>"

text \<open>The upload of part 2 is answered with status 200 and no error.\<close>

definition env_status_200 :: env where
  "env_status_200 =
     env0\<lparr>postPart :=
            (\<lambda>url q. if q_partNo q = 2 then Answers 200 (ack q) else Answers 201 (ack q))\<rparr>"

text \<open>The upload of part 2 is acknowledged with status 201 and a part id of zero.\<close>

definition env_zero_id :: env where
  "env_zero_id =
     env0\<lparr>postPart :=
            (\<lambda>url q. if q_partNo q = 2 then Answers 201 ((ack q)\<lparr>PartId := 0\<rparr>)
                      else Answers 201 (ack q))\<rparr>"

text \<open>The file is on the remote side already.\<close>

definition env_exists :: env where
  "env_exists = env0\<lparr>find := (\<lambda>path name k. Answers 200 \<lparr>Files = [''hello'']\<rparr>)\<rparr>"

text \<open>A service with one part worker and two concurrent files.\<close>

definition svc_one_worker :: UploadService where
  "svc_one_worker = svc0\<lparr>numWorkers := 1, concurrentFiles := 2\<rparr>"

text \<open>The local file is empty.\<close>

definition env_empty :: env where
  "env_empty = env0\<lparr>os_Open := (\<lambda>path. Some [])\<rparr>"

section \<open>Facts about the part plan\<close>

lemma wrap64_id: "- (2 ^ 63) \<le> x \<Longrightarrow> x < 2 ^ 63 \<Longrightarrow> wrap64 x = x"
  by (simp add: wrap64_def)

lemma sdiv_nonneg: "0 \<le> k \<Longrightarrow> 0 < l \<Longrightarrow> (k::int) sdiv l = k div l"
  by (cases "k = 0") (simp_all add: signed_divide_int_def)

lemma smod_nonneg: "0 \<le> k \<Longrightarrow> 0 < l \<Longrightarrow> (k::int) smod l = k mod l"
  by (cases "k = 0") (simp_all add: signed_modulo_int_def)

lemma totalParts_of_nowrap:
  assumes "0 \<le> fileSize" "0 < psize" "fileSize + psize \<le> MaxInt64"
  shows "totalParts_of fileSize psize =
           (if fileSize mod psize \<noteq> 0 then fileSize div psize + 1 else fileSize div psize)"
proof -
  have "fileSize div psize \<le> fileSize div 1"
    using assms by (intro zdiv_mono2) simp_all
  then have q: "0 \<le> fileSize div psize" "fileSize div psize \<le> fileSize"
    using assms by (simp_all add: pos_imp_zdiv_nonneg_iff)
  have "fileSize div psize + 1 < 2 ^ 63"
    using q assms by (simp add: MaxInt64_def)
  then show ?thesis
    using q assms by (simp add: totalParts_of_def Let_def sdiv_nonneg smod_nonneg wrap64_id)
qed

lemma totalParts_of_ceiling:
  assumes "0 \<le> fileSize" "0 < psize" "fileSize + psize \<le> MaxInt64"
  shows "totalParts_of fileSize psize = \<lceil>real_of_int fileSize / real_of_int psize\<rceil>"
proof -
  have "\<lceil>real_of_int fileSize / real_of_int psize\<rceil> = - (- fileSize div psize)"
    by (rule ceiling_divide_eq_div)
  also have "\<dots> = (if fileSize mod psize \<noteq> 0 then fileSize div psize + 1 else fileSize div psize)"
    using assms by (simp add: zdiv_zminus1_eq_if)
  finally show ?thesis
    using assms by (simp add: totalParts_of_nowrap)
qed

text \<open>Below the part count, the offsets stay inside the file.\<close>

lemma part_index_bounds:
  assumes "0 \<le> fileSize" "0 < psize" "fileSize + psize \<le> MaxInt64"
    and "0 \<le> i" "i < totalParts_of fileSize psize"
  shows "i * psize < fileSize"
proof -
  have "fileSize = fileSize div psize * psize + fileSize mod psize"
    by simp
  show ?thesis
  proof (cases "fileSize mod psize = 0")
    case True
    then have "i + 1 \<le> fileSize div psize"
      using assms by (simp add: totalParts_of_nowrap)
    then have "(i + 1) * psize \<le> fileSize div psize * psize"
      using assms by (intro mult_right_mono) simp_all
    also have "\<dots> = fileSize" using True div_mult_mod_eq [of fileSize psize] by simp
    finally show ?thesis using assms by (simp add: algebra_simps)
  next
    case False
    then have "i \<le> fileSize div psize"
      using assms by (simp add: totalParts_of_nowrap)
    then have "i * psize \<le> fileSize div psize * psize"
      using assms by (intro mult_right_mono) simp_all
    also have "\<dots> = fileSize - fileSize mod psize"
      by (simp add: algebra_simps minus_mod_eq_mult_div)
    also have "\<dots> < fileSize"
    proof -
      have "0 \<le> fileSize mod psize" using assms by simp
      with False show ?thesis by linarith
    qed
    finally show ?thesis .
  qed
qed

lemma part_index_conv:
  assumes "0 \<le> fileSize" "0 < psize" "fileSize + psize \<le> MaxInt64" "0 \<le> i"
  shows "i < totalParts_of fileSize psize \<longleftrightarrow> i * psize < fileSize"
proof
  assume "i < totalParts_of fileSize psize"
  then show "i * psize < fileSize" using assms by (rule part_index_bounds [rotated 4])
next
  assume lt: "i * psize < fileSize"
  have "i \<le> fileSize div psize"
  proof -
    have "i = i * psize div psize" using assms by simp
    also have "\<dots> \<le> fileSize div psize"
      using lt assms by (intro zdiv_mono1) simp_all
    finally show ?thesis .
  qed
  moreover have "fileSize mod psize = 0 \<Longrightarrow> i \<noteq> fileSize div psize"
    using lt by auto
  ultimately show "i < totalParts_of fileSize psize"
    using assms by (auto simp add: totalParts_of_nowrap)
qed

lemma part_start_nowrap:
  assumes "0 \<le> fileSize" "0 < psize" "fileSize + psize \<le> MaxInt64"
    and "0 \<le> i" "i < totalParts_of fileSize psize"
  shows "part_start psize i = i * psize"
proof -
  have "i * psize < fileSize" using assms by (rule part_index_bounds)
  then have "i * psize < 2 ^ 63" using assms by (simp add: MaxInt64_def)
  moreover have "- (2 ^ 63) \<le> i * psize"
  proof -
    have "0 \<le> i * psize" using assms by simp
    moreover have "(0::int) \<le> 2 ^ 63" by simp
    ultimately show ?thesis by linarith
  qed
  ultimately have "wrap64 (i * psize) = i * psize"
    by (intro wrap64_id)
  then show ?thesis
    by (simp add: part_start_def)
qed

lemma part_end_nowrap:
  assumes "0 \<le> fileSize" "0 < psize" "fileSize + psize \<le> MaxInt64"
    and "0 \<le> i" "i < totalParts_of fileSize psize"
  shows "part_end fileSize psize i = min ((i + 1) * psize) fileSize"
proof -
  have lt: "i * psize < fileSize" using assms by (rule part_index_bounds)
  have ge: "0 \<le> i * psize" using assms by simp
  have "(0::int) \<le> 2 ^ 63" by simp
  then have "- (2 ^ 63) \<le> i * psize + psize" using ge assms by linarith
  moreover have "i * psize + psize < 2 ^ 63" using lt assms by (simp add: MaxInt64_def)
  ultimately have "wrap64 (i * psize + psize) = i * psize + psize"
    by (intro wrap64_id)
  moreover have "part_start psize i = i * psize"
    using assms by (rule part_start_nowrap)
  ultimately show ?thesis
    by (simp add: part_end_def Let_def min_def algebra_simps)
qed

lemma plan_loop_upto:
  "plan_loop fileSize psize totalParts i =
     map (\<lambda>j. (j, part_start psize j, part_end fileSize psize j)) [i..totalParts - 1]"
proof (induction fileSize psize totalParts i rule: plan_loop.induct)
  case (1 fileSize psize totalParts i)
  show ?case
  proof (cases "i < totalParts")
    case True
    then have "[i..totalParts - 1] = i # [i + 1..totalParts - 1]"
      by (simp add: upto_rec1)
    with True 1 show ?thesis
      by (subst plan_loop.simps) simp
  next
    case False
    then show ?thesis
      by (subst plan_loop.simps) simp
  qed
qed

lemma length_plan: "length (plan fileSize psize) = nat (totalParts_of fileSize psize)"
  by (simp add: plan_def plan_loop_upto)

lemma nth_plan:
  "k < length (plan fileSize psize) \<Longrightarrow>
     plan fileSize psize ! k = (int k, part_start psize (int k), part_end fileSize psize (int k))"
  by (simp add: plan_def plan_loop_upto)

lemma plan_union:
  assumes "0 \<le> fileSize" "0 < psize" "fileSize + psize \<le> MaxInt64"
  shows "(\<Union>(i, s, e) \<in> set (plan fileSize psize). {s..<e}) = {0..<fileSize}"
proof (rule set_eqI)
  fix x
  let ?T = "totalParts_of fileSize psize"
  have set_plan: "set (plan fileSize psize) =
      (\<lambda>j. (j, part_start psize j, part_end fileSize psize j)) ` {0..?T - 1}"
    by (simp add: plan_def plan_loop_upto)
  show "x \<in> (\<Union>(i, s, e) \<in> set (plan fileSize psize). {s..<e}) \<longleftrightarrow> x \<in> {0..<fileSize}"
  proof
    assume "x \<in> (\<Union>(i, s, e) \<in> set (plan fileSize psize). {s..<e})"
    then obtain j where j: "0 \<le> j" "j < ?T"
      and x: "part_start psize j \<le> x" "x < part_end fileSize psize j"
      by (auto simp add: set_plan)
    have "0 \<le> j * psize" using j assms by simp
    moreover have "part_start psize j = j * psize"
      using assms j by (rule part_start_nowrap)
    moreover have "part_end fileSize psize j = min ((j + 1) * psize) fileSize"
      using assms j by (rule part_end_nowrap)
    ultimately show "x \<in> {0..<fileSize}"
      using x by simp
  next
    assume "x \<in> {0..<fileSize}"
    then have x: "0 \<le> x" "x < fileSize" by simp_all
    define j where "j = x div psize"
    have j0: "0 \<le> j" using x assms by (simp add: j_def pos_imp_zdiv_nonneg_iff)
    have xeq: "x = j * psize + x mod psize"
      by (simp add: j_def)
    have "0 \<le> x mod psize" "x mod psize < psize"
      using assms by simp_all
    with xeq have lo: "j * psize \<le> x" and hi: "x < (j + 1) * psize"
      by (simp_all add: algebra_simps)
    have "j * psize < fileSize" using lo x by simp
    then have jT: "j < ?T" using assms j0 by (simp add: part_index_conv)
    have "part_start psize j = j * psize"
      using assms j0 jT by (rule part_start_nowrap)
    moreover have "part_end fileSize psize j = min ((j + 1) * psize) fileSize"
      using assms j0 jT by (rule part_end_nowrap)
    ultimately have "x \<in> {part_start psize j..<part_end fileSize psize j}"
      using lo hi x by simp
    moreover have "(j, part_start psize j, part_end fileSize psize j) \<in> set (plan fileSize psize)"
      using j0 jT by (simp add: set_plan)
    ultimately show "x \<in> (\<Union>(i, s, e) \<in> set (plan fileSize psize). {s..<e})"
      by blast
  qed
qed


section \<open>Facts about the scheduler, the calls and the stages\<close>

lemma mset_remove_nth:
  "k < length xs \<Longrightarrow> add_mset (xs ! k) (mset (take k xs @ drop (Suc k) xs)) = mset xs"
proof -
  assume "k < length xs"
  then have "xs = take k xs @ xs ! k # drop (Suc k) xs"
    by (rule id_take_nth_drop)
  then have "mset xs = mset (take k xs @ xs ! k # drop (Suc k) xs)"
    by simp
  then show ?thesis by simp
qed

lemma mset_schedule: "mset (schedule picks xs) = mset xs"
proof (induction picks xs rule: schedule.induct)
  case (3 p picks x xs)
  let ?k = "p mod length (x # xs)"
  have k: "?k < length (x # xs)" by simp
  have "mset (schedule (p # picks) (x # xs)) =
          add_mset ((x # xs) ! ?k) (mset (take ?k (x # xs) @ drop (Suc ?k) (x # xs)))"
    using 3 by (simp add: Let_def del: take_Suc_Cons drop_Suc_Cons nth_Cons_Suc)
  also have "\<dots> = mset (x # xs)"
    using k by (rule mset_remove_nth)
  finally show ?case .
qed simp_all

lemma set_schedule: "set (schedule picks xs) = set xs"
  using mset_schedule [of picks xs] by (metis set_mset_mset)

lemma length_schedule: "length (schedule picks xs) = length xs"
  using mset_schedule [of picks xs] by (metis size_mset)

lemma schedule_complete: "mset ys = mset xs \<Longrightarrow> \<exists>picks. schedule picks xs = ys"
proof (induction ys arbitrary: xs)
  case Nil
  then show ?case by simp
next
  case (Cons y ys)
  then have "y \<in> set xs" by (metis list.set_intros(1) set_mset_mset)
  then obtain k where k: "k < length xs" "xs ! k = y"
    by (auto simp add: in_set_conv_nth)
  let ?rest = "take k xs @ drop (Suc k) xs"
  have "add_mset y (mset ?rest) = mset xs"
    using k mset_remove_nth [of k xs] by simp
  also have "\<dots> = add_mset y (mset ys)"
    using Cons.prems by simp
  finally have "mset ys = mset ?rest" by simp
  then obtain picks where picks: "schedule picks ?rest = ys"
    using Cons.IH by blast
  obtain x xs' where xs: "xs = x # xs'" using k by (cases xs) auto
  have "schedule (k # picks) (x # xs') = y # ys"
    using k picks xs by (simp add: Let_def del: take_Suc_Cons drop_Suc_Cons nth_Cons_Suc)
  then show ?case using xs by blast
qed

lemma collect_filter:
  "collect uploadedParts parts =
     parts @ map (\<lambda>p. \<lparr>ID = PartId p, FilePart.PartNo = PartFile.PartNo p, FilePart.Salt = PartFile.Salt p\<rparr>)
               (filter (\<lambda>p. PartId p \<noteq> 0 \<and> PartFile.Size p \<noteq> 0) uploadedParts)"
  by (induction uploadedParts arbitrary: parts) simp_all

lemma pacer_attempts_nonempty: "pacer_attempts fn k n \<noteq> []"
  by (cases n) simp_all

lemma pacer_Call_nonempty: "pacer_Call u fn \<noteq> []"
  by (simp add: pacer_Call_def pacer_attempts_nonempty)

subsection \<open>checkFileExists\<close>

lemma checkFileExists_events:
  "fst (checkFileExists u env name path) =
     Log DebugLevel ''checking file exists''
       # map (\<lambda>r. Request (FindFile path name)) (pacer_Call u (find env path name))"
  by (simp add: checkFileExists_def Let_def split: option.splits)

lemma checkFileExists_network:
  "e \<in> set (fst (checkFileExists u env name path)) \<Longrightarrow> is_network e \<Longrightarrow>
     e = Request (FindFile path name)"
  by (auto simp add: checkFileExists_events)

subsection \<open>The first stage\<close>

lemma UploadFile_init_Inl:
  assumes "UploadFile_init u env filePath destDir = Inl (out, tr)"
    and "e \<in> set tr" and "is_network e"
  shows "e = Request (FindFile destDir (Base env filePath))"
proof -
  obtain chk ex err where
    ch: "checkFileExists u env (Base env filePath) destDir = (chk, ex, err)"
    by (cases "checkFileExists u env (Base env filePath) destDir") auto
  then have "chk = fst (checkFileExists u env (Base env filePath) destDir)" by simp
  then have net: "\<And>e. e \<in> set chk \<Longrightarrow> is_network e \<Longrightarrow>
      e = Request (FindFile destDir (Base env filePath))"
    using checkFileExists_network by blast
  from assms ch show ?thesis
    by (auto simp add: UploadFile_init_def Let_def dest: net
          split: option.splits sum.splits if_splits)
qed

lemma UploadFile_init_Inr:
  assumes "UploadFile_init u env filePath destDir = Inr (mimeType, fileSize, name, events)"
  shows "name = Base env filePath
       \<and> events = AddBar name fileSize # fst (checkFileExists u env name destDir)
       \<and> snd (checkFileExists u env name destDir) = (False, None)
       \<and> (\<exists>file. os_Open env filePath = Some file \<and> file \<noteq> [] \<and> fileSize = int (length file))"
proof -
  obtain chk ex err where
    ch: "checkFileExists u env (Base env filePath) destDir = (chk, ex, err)"
    by (cases "checkFileExists u env (Base env filePath) destDir") auto
  from assms ch show ?thesis
    by (auto simp add: UploadFile_init_def Let_def file_Read_def
          split: option.splits sum.splits if_splits)
qed

subsection \<open>One part task\<close>

lemma part_task_cases:
  "part_task u env name url existingParts tp ch enc i s e = (evs, sent) \<Longrightarrow>
     (\<not> worker_Open env i \<and> evs = [Log ErrorLevel ''open file failed''] \<and> sent = None)
   \<or> (worker_Open env i \<and> (\<exists>ex. existingParts (i + 1) = Some ex
          \<and> evs = [BarIncrInt64 (PartFile.Size ex)] \<and> sent = Some ex))
   \<or> (worker_Open env i \<and> existingParts (i + 1) = None \<and> \<not> worker_Seek env i
          \<and> evs = [Log ErrorLevel ''seek file failed''] \<and> sent = None)
   \<or> (worker_Open env i \<and> existingParts (i + 1) = None \<and> worker_Seek env i
        \<and> (case postPart env url (part_opts u env name tp ch enc i s e) of
              Fails err r v \<Rightarrow>
                evs = [Request (PostPart url (part_opts u env name tp ch enc i s e)),
                       Log ErrorLevel ''send part file failed'']
                \<and> sent = None
            | Answers status partFile \<Rightarrow>
                if status = 201
                then evs = [Request (PostPart url (part_opts u env name tp ch enc i s e)),
                            Log DebugLevel ''part file sent'']
                     \<and> sent = Some partFile
                else evs = [Request (PostPart url (part_opts u env name tp ch enc i s e))]
                     \<and> sent = None))"
  by (auto simp add: part_task_def Let_def split: option.splits if_splits reply.splits)

subsection \<open>dispatch\<close>

lemma dispatch_set:
  "set (dispatch u env name url existingParts tp ch enc fileSize) =
     (\<lambda>i. (i, part_task u env name url existingParts tp ch enc i
                 (part_start (partSize u) i) (part_end fileSize (partSize u) i))) ` {0..tp - 1}"
  by (auto simp add: dispatch_def set_schedule plan_loop_upto)

lemma dispatch_length:
  "length (dispatch u env name url existingParts tp ch enc fileSize) = nat tp"
  by (simp add: dispatch_def length_schedule plan_loop_upto)

lemma dispatch_part_numbers:
  "mset (map fst (dispatch u env name url existingParts tp ch enc fileSize)) = mset [0..tp - 1]"
proof -
  have "mset (map fst (dispatch u env name url existingParts tp ch enc fileSize))
      = image_mset fst (mset (dispatch u env name url existingParts tp ch enc fileSize))"
    by simp
  also have "\<dots> = image_mset fst (mset (map (\<lambda>(partNumber, start, end).
               (partNumber,
                part_task u env name url existingParts tp ch enc
                  partNumber start end))
          (plan_loop fileSize (partSize u) tp 0)))"
    by (simp only: dispatch_def mset_schedule)
  also have "\<dots> = mset [0..tp - 1]"
    by (simp add: plan_loop_upto image_mset.compositionality comp_def)
  finally show ?thesis .
qed

subsection \<open>The session lookup\<close>

lemma session_lookup_network:
  "e \<in> set (fst (session_lookup u env url fileSize)) \<Longrightarrow> e = Request (GetSession url)"
  by (auto simp add: session_lookup_def Let_def split: if_splits option.splits)

lemma session_lookup_existing:
  assumes "snd (snd (session_lookup u env url fileSize)) k = Some ex"
  shows "ex \<in> set (UploadFile_body.Parts (fst (snd (session_lookup u env url fileSize))))
       \<and> PartFile.PartNo ex = k"
proof -
  have fold_map: "fold (\<lambda>part m. m(PartFile.PartNo part \<mapsto> part)) ps m k = Some ex \<Longrightarrow>
      (ex \<in> set ps \<and> PartFile.PartNo ex = k) \<or> m k = Some ex" for ps m
  proof (induction ps arbitrary: m)
    case Nil
    then show ?case by simp
  next
    case (Cons a ps)
    from Cons.prems have "fold (\<lambda>part m. m(PartFile.PartNo part \<mapsto> part)) ps
        (m(PartFile.PartNo a \<mapsto> a)) k = Some ex"
      by (simp only: fold_simps)
    then have "(ex \<in> set ps \<and> PartFile.PartNo ex = k) \<or> (m(PartFile.PartNo a \<mapsto> a)) k = Some ex"
      by (rule Cons.IH)
    then show ?case
      by (cases "PartFile.PartNo a = k") auto
  qed
  from assms show ?thesis
    by (auto simp add: session_lookup_def Let_def split: if_splits option.splits dest: fold_map)
qed

subsection \<open>The second stage\<close>

lemma UploadFile_parts_Inl:
  assumes "UploadFile_parts u env destDir fileSize name = Inl (out, tr)"
    and "e \<in> set tr" and "is_network e"
  shows "e = Request (GetSession (uploadURL_of env name destDir fileSize))"
proof -
  let ?url = "uploadURL_of env name destDir fileSize"
  obtain looked uploadFile existingParts where
    sl: "session_lookup u env ?url fileSize = (looked, uploadFile, existingParts)"
    by (cases "session_lookup u env ?url fileSize") auto
  then have "looked = fst (session_lookup u env ?url fileSize)" by simp
  then have net: "\<And>e. e \<in> set looked \<Longrightarrow> e = Request (GetSession ?url)"
    using session_lookup_network by blast
  from assms(1) sl have "tr = looked @ [BarClose] \<or> tr = looked"
    by (auto simp add: UploadFile_parts_def Let_def split: if_splits)
  with assms(2,3) have "e \<in> set looked" by auto
  then show ?thesis by (rule net)
qed

lemma UploadFile_parts_Inr:
  assumes "UploadFile_parts u env destDir fileSize name = Inr c"
  shows "c_uploadURL c = uploadURL_of env name destDir fileSize
       \<and> c_uploadFile c = fst (snd (session_lookup u env (c_uploadURL c) fileSize))
       \<and> c_existingParts c = snd (snd (session_lookup u env (c_uploadURL c) fileSize))
       \<and> c_totalParts c = totalParts_of fileSize (partSize u)
       \<and> 0 \<le> c_totalParts c
       \<and> c_channelID c =
            (case UploadFile_body.Parts (c_uploadFile c) of
               [] \<Rightarrow> channelID u | first # others \<Rightarrow> PartFile.ChannelID first)
       \<and> c_encryptFile c =
            (case UploadFile_body.Parts (c_uploadFile c) of
               [] \<Rightarrow> encryptFiles u | first # others \<Rightarrow> PartFile.Encrypted first)
       \<and> c_results c =
            dispatch u env name (c_uploadURL c) (c_existingParts c) (c_totalParts c)
              (c_channelID c) (c_encryptFile c) fileSize
       \<and> c_uploadedParts c = List.map_filter (\<lambda>(partNumber, events, sent). sent) (c_results c)
       \<and> c_parts c = collect (c_uploadedParts c) []
       \<and> c_events c =
            fst (session_lookup u env (c_uploadURL c) fileSize)
            @ concat (map (\<lambda>(partNumber, events, sent). events) (c_results c))
            @ [BarFinish]"
proof -
  let ?url = "uploadURL_of env name destDir fileSize"
  obtain looked uploadFile existingParts where
    sl: "session_lookup u env ?url fileSize = (looked, uploadFile, existingParts)"
    by (cases "session_lookup u env ?url fileSize") auto
  from assms sl show ?thesis
    by (cases "UploadFile_body.Parts uploadFile")
       (auto simp add: UploadFile_parts_def Let_def split: if_splits)
qed

subsection \<open>The third stage\<close>

lemma UploadFile_commit_incomplete:
  "int (length (c_parts c)) \<noteq> c_totalParts c \<Longrightarrow>
     UploadFile_commit u env destDir mimeType fileSize name c =
       (Return (Some UploadedPartsIncomplete),
        c_events c @ [BarAbort, Log ErrorLevel ''uploaded parts incomplete'', BarClose])"
  by (simp add: UploadFile_commit_def)

lemma UploadFile_commit_complete:
  assumes "int (length (c_parts c)) = c_totalParts c"
  shows "\<exists>later. snd (UploadFile_commit u env destDir mimeType fileSize name c) =
           c_events c
           @ map (\<lambda>r. Request (PostFiles (manifest destDir mimeType fileSize name c)))
               (pacer_Call u (postFiles env (manifest destDir mimeType fileSize name c)))
           @ later
         \<and> (\<forall>e\<in>set later. \<not> is_commit e \<and> \<not> is_part_upload e)"
  using assms
  by (auto simp add: UploadFile_commit_def Let_def split: option.splits)

subsection \<open>The whole function, by stages\<close>

lemma reached_None:
  assumes "reached u env filePath destDir = None"
    and "e \<in> set (snd (UploadFile u env filePath destDir))"
  shows "\<not> is_commit e \<and> \<not> is_part_upload e"
proof (cases "UploadFile_init u env filePath destDir")
  case (Inl stop)
  obtain out tr where stop: "stop = (out, tr)" by (cases stop)
  with Inl assms(2) have "e \<in> set tr" by (simp add: UploadFile_def)
  then have "is_network e \<Longrightarrow> e = Request (FindFile destDir (Base env filePath))"
    using Inl stop UploadFile_init_Inl by blast
  then show ?thesis by (cases e rule: is_commit.cases) auto
next
  case (Inr go)
  obtain mimeType fileSize name events where go: "go = (mimeType, fileSize, name, events)"
    by (cases go)
  have ev: "events = AddBar name fileSize # fst (checkFileExists u env name destDir)"
    using Inr go UploadFile_init_Inr by blast
  obtain out tr where parts: "UploadFile_parts u env destDir fileSize name = Inl (out, tr)"
    using assms(1) Inr go by (auto simp add: reached_def split: sum.splits)
  from assms(2) Inr go parts have "e \<in> set events \<or> e \<in> set tr"
    by (simp add: UploadFile_def)
  then show ?thesis
  proof
    assume "e \<in> set events"
    then have "is_network e \<Longrightarrow> e = Request (FindFile destDir name)"
      using ev checkFileExists_network by auto
    then show ?thesis by (cases e rule: is_commit.cases) auto
  next
    assume "e \<in> set tr"
    then have "is_network e \<Longrightarrow>
        e = Request (GetSession (uploadURL_of env name destDir fileSize))"
      using parts UploadFile_parts_Inl by blast
    then show ?thesis by (cases e rule: is_commit.cases) auto
  qed
qed

lemma reached_Some:
  assumes "reached u env filePath destDir = Some c"
  shows "\<exists>mimeType fileSize name events.
           UploadFile_init u env filePath destDir = Inr (mimeType, fileSize, name, events)
         \<and> UploadFile_parts u env destDir fileSize name = Inr c
         \<and> (\<forall>e\<in>set events. \<not> is_commit e \<and> \<not> is_part_upload e)
         \<and> UploadFile u env filePath destDir =
             (fst (UploadFile_commit u env destDir mimeType fileSize name c),
              events @ snd (UploadFile_commit u env destDir mimeType fileSize name c))"
proof -
  from assms obtain mimeType fileSize name events where
    init: "UploadFile_init u env filePath destDir = Inr (mimeType, fileSize, name, events)"
    and parts: "UploadFile_parts u env destDir fileSize name = Inr c"
    by (auto simp add: reached_def split: sum.splits)
  have ev: "events = AddBar name fileSize # fst (checkFileExists u env name destDir)"
    using init UploadFile_init_Inr by blast
  have "\<not> is_commit e \<and> \<not> is_part_upload e" if "e \<in> set events" for e
  proof -
    have "is_network e \<Longrightarrow> e = Request (FindFile destDir name)"
      using that ev checkFileExists_network by auto
    then show ?thesis by (cases e rule: is_commit.cases) auto
  qed
  moreover have "UploadFile u env filePath destDir =
      (fst (UploadFile_commit u env destDir mimeType fileSize name c),
       events @ snd (UploadFile_commit u env destDir mimeType fileSize name c))"
    using init parts by (simp add: UploadFile_def split: prod.splits)
  ultimately show ?thesis using init parts by blast
qed

text \<open>The tasks of a run and what each of them did.\<close>

lemma results_task:
  assumes "UploadFile_parts u env destDir fileSize name = Inr c"
    and "(i, evs, sent) \<in> set (c_results c)"
  shows "0 \<le> i \<and> i < c_totalParts c
       \<and> part_task u env name (c_uploadURL c) (c_existingParts c) (c_totalParts c)
           (c_channelID c) (c_encryptFile c) i
           (part_start (partSize u) i) (part_end fileSize (partSize u) i) = (evs, sent)"
proof -
  have "c_results c =
      dispatch u env name (c_uploadURL c) (c_existingParts c) (c_totalParts c)
        (c_channelID c) (c_encryptFile c) fileSize"
    using assms(1) UploadFile_parts_Inr by blast
  with assms(2) show ?thesis
    by (auto simp add: dispatch_set)
qed

lemma results_length:
  assumes "UploadFile_parts u env destDir fileSize name = Inr c"
  shows "length (c_results c) = nat (c_totalParts c)"
proof -
  have "c_results c =
      dispatch u env name (c_uploadURL c) (c_existingParts c) (c_totalParts c)
        (c_channelID c) (c_encryptFile c) fileSize"
    using assms UploadFile_parts_Inr by blast
  then show ?thesis by (simp add: dispatch_length)
qed

lemma results_distinct:
  assumes "UploadFile_parts u env destDir fileSize name = Inr c"
  shows "distinct (map fst (c_results c))"
proof -
  have "c_results c =
      dispatch u env name (c_uploadURL c) (c_existingParts c) (c_totalParts c)
        (c_channelID c) (c_encryptFile c) fileSize"
    using assms UploadFile_parts_Inr by blast
  then have "mset (map fst (c_results c)) = mset [0..c_totalParts c - 1]"
    by (simp only: dispatch_part_numbers)
  moreover have "distinct [0..c_totalParts c - 1]" by simp
  ultimately show ?thesis by (metis distinct_count_atmost_1 set_mset_mset)
qed

lemma task_events_no_commit:
  assumes "part_task u env name url existingParts tp ch enc i s e = (evs, sent)"
    and "ev \<in> set evs"
  shows "\<not> is_commit ev"
  using part_task_cases [OF assms(1)] assms(2)
  by (auto split: reply.splits if_splits)

lemma collected_events:
  assumes "UploadFile_parts u env destDir fileSize name = Inr c"
    and "ev \<in> set (c_events c)"
  shows "\<not> is_commit ev
       \<and> (is_part_upload ev \<longrightarrow> (\<exists>i evs sent. (i, evs, sent) \<in> set (c_results c) \<and> ev \<in> set evs))"
proof -
  have ce: "c_events c =
      fst (session_lookup u env (c_uploadURL c) fileSize)
      @ concat (map (\<lambda>(partNumber, events, sent). events) (c_results c))
      @ [BarFinish]"
    using assms(1) UploadFile_parts_Inr by blast
  from assms(2) consider
      (lookup) "ev \<in> set (fst (session_lookup u env (c_uploadURL c) fileSize))"
    | (task) i evs sent where "(i, evs, sent) \<in> set (c_results c)" "ev \<in> set evs"
    | (finish) "ev = BarFinish"
    unfolding ce by auto
  then show ?thesis
  proof cases
    case lookup
    then have "ev = Request (GetSession (c_uploadURL c))"
      by (rule session_lookup_network)
    then show ?thesis by simp
  next
    case task
    then have "\<not> is_commit ev"
      using results_task [OF assms(1) task(1)] task_events_no_commit by blast
    with task show ?thesis by blast
  next
    case finish
    then show ?thesis by simp
  qed
qed

lemma commit_iff_complete:
  assumes "reached u env filePath destDir = Some c"
  shows "(\<exists>e\<in>set (snd (UploadFile u env filePath destDir)). is_commit e)
           \<longleftrightarrow> int (length (c_parts c)) = c_totalParts c"
proof -
  from reached_Some [OF assms] obtain mimeType fileSize name events where
    parts: "UploadFile_parts u env destDir fileSize name = Inr c"
    and events: "\<forall>e\<in>set events. \<not> is_commit e \<and> \<not> is_part_upload e"
    and run: "UploadFile u env filePath destDir =
      (fst (UploadFile_commit u env destDir mimeType fileSize name c),
       events @ snd (UploadFile_commit u env destDir mimeType fileSize name c))"
    by blast
  have collected: "\<forall>e\<in>set (c_events c). \<not> is_commit e"
    using collected_events [OF parts] by blast
  show ?thesis
  proof (cases "int (length (c_parts c)) = c_totalParts c")
    case True
    let ?payload = "manifest destDir mimeType fileSize name c"
    from UploadFile_commit_complete [OF True] obtain later where
      "snd (UploadFile_commit u env destDir mimeType fileSize name c) =
         c_events c
         @ map (\<lambda>r. Request (PostFiles ?payload)) (pacer_Call u (postFiles env ?payload))
         @ later"
      by blast
    moreover have "pacer_Call u (postFiles env ?payload) \<noteq> []"
      by (rule pacer_Call_nonempty)
    ultimately have "Request (PostFiles ?payload)
        \<in> set (snd (UploadFile_commit u env destDir mimeType fileSize name c))"
      by (cases "pacer_Call u (postFiles env ?payload)") auto
    then have "Request (PostFiles ?payload) \<in> set (snd (UploadFile u env filePath destDir))"
      by (simp add: run)
    moreover have "is_commit (Request (PostFiles ?payload))" by simp
    ultimately show ?thesis using True by blast
  next
    case False
    then have "snd (UploadFile u env filePath destDir) =
        events @ c_events c @ [BarAbort, Log ErrorLevel ''uploaded parts incomplete'', BarClose]"
      by (simp add: run UploadFile_commit_incomplete)
    then show ?thesis using False events collected by auto
  qed
qed

lemma incomplete_outcome:
  assumes "reached u env filePath destDir = Some c"
    and "int (length (c_parts c)) \<noteq> c_totalParts c"
  shows "fst (UploadFile u env filePath destDir) = Return (Some UploadedPartsIncomplete)"
proof -
  from reached_Some [OF assms(1)] obtain mimeType fileSize name events where
    "UploadFile u env filePath destDir =
      (fst (UploadFile_commit u env destDir mimeType fileSize name c),
       events @ snd (UploadFile_commit u env destDir mimeType fileSize name c))"
    by blast
  then show ?thesis using assms(2) by (simp add: UploadFile_commit_incomplete)
qed

lemma committed_manifest:
  assumes "reached u env filePath destDir = Some c"
    and "Request (PostFiles payload) \<in> set (snd (UploadFile u env filePath destDir))"
  shows "\<exists>mimeType fileSize name. payload = manifest destDir mimeType fileSize name c"
proof -
  from reached_Some [OF assms(1)] obtain mimeType fileSize name events where
    parts: "UploadFile_parts u env destDir fileSize name = Inr c"
    and events: "\<forall>e\<in>set events. \<not> is_commit e \<and> \<not> is_part_upload e"
    and run: "UploadFile u env filePath destDir =
      (fst (UploadFile_commit u env destDir mimeType fileSize name c),
       events @ snd (UploadFile_commit u env destDir mimeType fileSize name c))"
    by blast
  have collected: "\<forall>e\<in>set (c_events c). \<not> is_commit e"
    using collected_events [OF parts] by blast
  have "\<exists>e\<in>set (snd (UploadFile u env filePath destDir)). is_commit e"
    using assms(2) by force
  then have complete: "int (length (c_parts c)) = c_totalParts c"
    using commit_iff_complete [OF assms(1)] by simp
  let ?payload = "manifest destDir mimeType fileSize name c"
  from UploadFile_commit_complete [OF complete] obtain later where
    tr: "snd (UploadFile_commit u env destDir mimeType fileSize name c) =
         c_events c
         @ map (\<lambda>r. Request (PostFiles ?payload)) (pacer_Call u (postFiles env ?payload))
         @ later"
    and later: "\<forall>e\<in>set later. \<not> is_commit e \<and> \<not> is_part_upload e"
    by blast
  have "is_commit (Request (PostFiles payload))" by simp
  with assms(2) events collected later have "payload = ?payload"
    unfolding run snd_conv tr by auto
  then show ?thesis by blast
qed

lemma part_upload_of_task:
  assumes "reached u env filePath destDir = Some c"
    and "Request (PostPart url q) \<in> set (snd (UploadFile u env filePath destDir))"
  shows "\<exists>i evs sent. (i, evs, sent) \<in> set (c_results c) \<and> Request (PostPart url q) \<in> set evs"
proof -
  from reached_Some [OF assms(1)] obtain mimeType fileSize name events where
    parts: "UploadFile_parts u env destDir fileSize name = Inr c"
    and events: "\<forall>e\<in>set events. \<not> is_commit e \<and> \<not> is_part_upload e"
    and run: "UploadFile u env filePath destDir =
      (fst (UploadFile_commit u env destDir mimeType fileSize name c),
       events @ snd (UploadFile_commit u env destDir mimeType fileSize name c))"
    by blast
  have up: "is_part_upload (Request (PostPart url q))" by simp
  have "Request (PostPart url q) \<in> set (c_events c)"
  proof (cases "int (length (c_parts c)) = c_totalParts c")
    case True
    let ?payload = "manifest destDir mimeType fileSize name c"
    from UploadFile_commit_complete [OF True] obtain later where
      tr: "snd (UploadFile_commit u env destDir mimeType fileSize name c) =
           c_events c
           @ map (\<lambda>r. Request (PostFiles ?payload)) (pacer_Call u (postFiles env ?payload))
           @ later"
      and later: "\<forall>e\<in>set later. \<not> is_commit e \<and> \<not> is_part_upload e"
      by blast
    from assms(2) events later up show ?thesis
      unfolding run snd_conv tr by auto
  next
    case False
    then have "snd (UploadFile u env filePath destDir) =
        events @ c_events c @ [BarAbort, Log ErrorLevel ''uploaded parts incomplete'', BarClose]"
      by (simp add: run UploadFile_commit_incomplete)
    with assms(2) events up show ?thesis by auto
  qed
  then show ?thesis
    using collected_events [OF parts] up by blast
qed

lemma reached_task:
  assumes "reached u env filePath destDir = Some c"
    and "(i, evs, sent) \<in> set (c_results c)"
  shows "\<exists>name s e. 0 \<le> i \<and> i < c_totalParts c
       \<and> part_task u env name (c_uploadURL c) (c_existingParts c) (c_totalParts c)
           (c_channelID c) (c_encryptFile c) i s e = (evs, sent)"
proof -
  from reached_Some [OF assms(1)] obtain fileSize name where
    "UploadFile_parts u env destDir fileSize name = Inr c"
    by blast
  from results_task [OF this assms(2)] show ?thesis by blast
qed

lemma reached_counts:
  assumes "reached u env filePath destDir = Some c"
  shows "length (c_results c) = nat (c_totalParts c) \<and> 0 \<le> c_totalParts c
       \<and> distinct (map fst (c_results c))
       \<and> c_uploadedParts c = List.map_filter (\<lambda>(partNumber, events, sent). sent) (c_results c)
       \<and> c_parts c =
           map (\<lambda>p. \<lparr>ID = PartId p, FilePart.PartNo = PartFile.PartNo p,
                      FilePart.Salt = PartFile.Salt p\<rparr>)
             (filter (\<lambda>p. PartId p \<noteq> 0 \<and> PartFile.Size p \<noteq> 0) (c_uploadedParts c))"
proof -
  from reached_Some [OF assms(1)] obtain fileSize name where
    parts: "UploadFile_parts u env destDir fileSize name = Inr c"
    by blast
  have "c_parts c = collect (c_uploadedParts c) []" "0 \<le> c_totalParts c"
    "c_uploadedParts c = List.map_filter (\<lambda>(partNumber, events, sent). sent) (c_results c)"
    using UploadFile_parts_Inr [OF parts] by simp_all
  then show ?thesis
    using results_length [OF parts] results_distinct [OF parts]
    by (simp add: collect_filter)
qed


section \<open>The claims\<close>

text \<open>The scenario of the specification: 2500 bytes in parts of 1000.\<close>

lemma plan_2500_1000: "plan 2500 1000 = [(0, 0, 1000), (1, 1000, 2000), (2, 2000, 2500)]"
  by code_simp

text \<open>
  C2, as amended. For every file size \<open>fileSize \<ge> 0\<close> and part size \<open>psize > 0\<close>
  with \<open>fileSize + psize \<le> MaxInt64\<close> (no \<open>int64\<close> operation of the plan wraps),
  the part plan of \<open>UploadFile\<close> has \<open>ceil(fileSize / psize)\<close> parts, part \<open>k\<close>
  (0-based) covers the bytes from \<open>k * psize\<close> up to, not including,
  \<open>min((k + 1) * psize, fileSize)\<close>, each part begins where the one before it ends,
  no two parts overlap, and together the parts are exactly the bytes \<open>0\<close> to
  \<open>fileSize\<close>.
\<close>

theorem plan_covers_file:
  assumes "0 \<le> fileSize" and "0 < psize" and "fileSize + psize \<le> MaxInt64"
  shows "int (length (plan fileSize psize)) = \<lceil>real_of_int fileSize / real_of_int psize\<rceil>
       \<and> (\<forall>k < length (plan fileSize psize).
             plan fileSize psize ! k =
               (int k, int k * psize, min ((int k + 1) * psize) fileSize))
       \<and> (\<forall>k. Suc k < length (plan fileSize psize) \<longrightarrow>
             snd (snd (plan fileSize psize ! k)) = fst (snd (plan fileSize psize ! Suc k)))
       \<and> (\<forall>j k. j < k \<and> k < length (plan fileSize psize) \<longrightarrow>
             {fst (snd (plan fileSize psize ! j))..<snd (snd (plan fileSize psize ! j))}
               \<inter> {fst (snd (plan fileSize psize ! k))..<snd (snd (plan fileSize psize ! k))} = {})
       \<and> (\<Union>(i, s, e) \<in> set (plan fileSize psize). {s..<e}) = {0..<fileSize}"
proof -
  let ?T = "totalParts_of fileSize psize"
  let ?P = "plan fileSize psize"
  have "0 \<le> fileSize div psize"
    using assms by (simp add: pos_imp_zdiv_nonneg_iff)
  then have T0: "0 \<le> ?T"
    using assms by (simp add: totalParts_of_nowrap)
  have len: "int (length ?P) = ?T"
    using T0 by (simp add: length_plan)
  have nth: "?P ! k = (int k, int k * psize, min ((int k + 1) * psize) fileSize)"
    if "k < length ?P" for k
  proof -
    have k: "0 \<le> int k" "int k < ?T" using that len by simp_all
    have "part_start psize (int k) = int k * psize"
      using assms k by (rule part_start_nowrap)
    moreover have "part_end fileSize psize (int k) = min ((int k + 1) * psize) fileSize"
      using assms k by (rule part_end_nowrap)
    ultimately show ?thesis using that by (simp add: nth_plan)
  qed
  have contiguous: "snd (snd (?P ! k)) = fst (snd (?P ! Suc k))" if "Suc k < length ?P" for k
  proof -
    have "int (Suc k) < ?T" using that len by simp
    then have "int (Suc k) * psize < fileSize"
      using assms by (intro part_index_bounds) simp_all
    then show ?thesis using that by (simp add: nth algebra_simps)
  qed
  have disjoint: "{fst (snd (?P ! j))..<snd (snd (?P ! j))}
                    \<inter> {fst (snd (?P ! k))..<snd (snd (?P ! k))} = {}"
    if "j < k \<and> k < length ?P" for j k
  proof -
    have "int j + 1 \<le> int k" using that by simp
    then have "(int j + 1) * psize \<le> int k * psize"
      using assms by (intro mult_right_mono) simp_all
    then have "snd (snd (?P ! j)) \<le> fst (snd (?P ! k))"
      using that by (simp add: nth)
    then show ?thesis by auto
  qed
  show ?thesis
    using len nth contiguous disjoint assms
    by (simp add: totalParts_of_ceiling plan_union)
qed

theorem plan_covers_file_witness:
  "(0::int) \<le> 2500 \<and> (0::int) < 1000 \<and> 2500 + 1000 \<le> MaxInt64
   \<and> int (length (plan 2500 1000)) = \<lceil>real_of_int 2500 / real_of_int 1000\<rceil>
   \<and> (\<Union>(i, s, e) \<in> set (plan 2500 1000). {s..<e}) = {0..<2500}"
  using plan_covers_file [of 2500 1000] by (simp add: MaxInt64_def)

text \<open>
  C2 as stated, for every file size and part size, fails where \<^verbatim>\<open>start + u.partSize\<close>
  wraps: a file of \<open>2 ^ 63 - 1\<close> bytes in parts of \<open>2 ^ 62 + 1\<close> bytes has two parts,
  and the second one ends at a negative offset, not at the end of the file.
\<close>

theorem plan_wraps_counterexample:
  "plan 9223372036854775807 4611686018427387905 ! 1
     = (1, 4611686018427387905, - 9223372036854775806)
   \<and> snd (snd (plan 9223372036854775807 4611686018427387905 ! 1))
       \<noteq> min ((1 + 1) * 4611686018427387905) 9223372036854775807"
  by code_simp

text \<open>
  C1. \<open>UploadFile\<close> posts the manifest if and only if it reaches the completeness
  check of line 301 with as many collected part records as planned parts. In a run
  that reaches the check there is one task for each planned part; when a task fails
  (sends no record) fewer records are collected than planned; and whenever the two
  numbers differ no manifest is posted and the function returns the error
  "uploaded parts incomplete".
\<close>

theorem UploadFile_commits_iff_complete:
  "((\<exists>e\<in>set (snd (UploadFile u env filePath destDir)). is_commit e)
      \<longleftrightarrow> (\<exists>c. reached u env filePath destDir = Some c
                \<and> int (length (c_parts c)) = c_totalParts c))
   \<and> (\<forall>c. reached u env filePath destDir = Some c \<longrightarrow>
          int (length (c_results c)) = c_totalParts c
        \<and> ((\<exists>r\<in>set (c_results c). snd (snd r) = None)
              \<longrightarrow> int (length (c_parts c)) < c_totalParts c)
        \<and> (int (length (c_parts c)) \<noteq> c_totalParts c \<longrightarrow>
              fst (UploadFile u env filePath destDir) = Return (Some UploadedPartsIncomplete)
            \<and> \<not> (\<exists>e\<in>set (snd (UploadFile u env filePath destDir)). is_commit e)))"
proof (intro conjI allI impI)
  show "(\<exists>e\<in>set (snd (UploadFile u env filePath destDir)). is_commit e)
      \<longleftrightarrow> (\<exists>c. reached u env filePath destDir = Some c
                \<and> int (length (c_parts c)) = c_totalParts c)"
  proof (cases "reached u env filePath destDir")
    case None
    then show ?thesis using reached_None by fastforce
  next
    case (Some c)
    then show ?thesis using commit_iff_complete by fastforce
  qed
next
  fix c
  assume c: "reached u env filePath destDir = Some c"
  note counts = reached_counts [OF c]
  show "int (length (c_results c)) = c_totalParts c"
    using counts by simp
  {
    assume "\<exists>r\<in>set (c_results c). snd (snd r) = None"
    then obtain r where r: "r \<in> set (c_results c)" "snd (snd r) = None" by blast
    let ?sent = "\<lambda>(partNumber, events, sent). sent"
    have "\<not> (?sent r \<noteq> None)" using r(2) by (cases r) auto
    with r(1) have "length (filter (\<lambda>r. ?sent r \<noteq> None) (c_results c)) < length (c_results c)"
      by (rule length_filter_less)
    then have "length (c_uploadedParts c) < length (c_results c)"
      using counts by (simp add: map_filter_def)
    moreover have "length (c_parts c) \<le> length (c_uploadedParts c)"
      using counts by simp
    ultimately show "int (length (c_parts c)) < c_totalParts c"
      using counts by linarith
  }
  {
    assume ne: "int (length (c_parts c)) \<noteq> c_totalParts c"
    show "fst (UploadFile u env filePath destDir) = Return (Some UploadedPartsIncomplete)"
      using c ne by (rule incomplete_outcome)
    show "\<not> (\<exists>e\<in>set (snd (UploadFile u env filePath destDir)). is_commit e)"
      using commit_iff_complete [OF c] ne by simp
  }
qed

theorem UploadFile_commits_iff_complete_witness:
  "(\<exists>e\<in>set (snd (UploadFile svc0 env0 ''/tmp/hello'' ''/dest'')). is_commit e)
   \<and> (\<exists>c. reached svc0 env0 ''/tmp/hello'' ''/dest'' = Some c
          \<and> int (length (c_parts c)) = c_totalParts c)
   \<and> (\<exists>c. reached svc0 env_part_fails ''/tmp/hello'' ''/dest'' = Some c
          \<and> (\<exists>r\<in>set (c_results c). snd (snd r) = None)
          \<and> int (length (c_parts c)) < c_totalParts c)
   \<and> fst (UploadFile svc0 env_part_fails ''/tmp/hello'' ''/dest'')
       = Return (Some UploadedPartsIncomplete)
   \<and> \<not> (\<exists>e\<in>set (snd (UploadFile svc0 env_part_fails ''/tmp/hello'' ''/dest'')). is_commit e)"
proof -
  have posted: "\<exists>e\<in>set (snd (UploadFile svc0 env0 ''/tmp/hello'' ''/dest'')). is_commit e"
    by code_simp
  have "case reached svc0 env_part_fails ''/tmp/hello'' ''/dest'' of
          None \<Rightarrow> False
        | Some c \<Rightarrow> \<exists>r\<in>set (c_results c). snd (snd r) = None"
    by code_simp
  then obtain c where c: "reached svc0 env_part_fails ''/tmp/hello'' ''/dest'' = Some c"
    and failed: "\<exists>r\<in>set (c_results c). snd (snd r) = None"
    by (cases "reached svc0 env_part_fails ''/tmp/hello'' ''/dest''") auto
  from UploadFile_commits_iff_complete [of svc0 env0 "''/tmp/hello''" "''/dest''"] posted
  have complete: "\<exists>c. reached svc0 env0 ''/tmp/hello'' ''/dest'' = Some c
      \<and> int (length (c_parts c)) = c_totalParts c"
    by blast
  from UploadFile_commits_iff_complete [of svc0 env_part_fails "''/tmp/hello''" "''/dest''"]
    c failed
  have fewer: "int (length (c_parts c)) < c_totalParts c"
    by blast
  with UploadFile_commits_iff_complete [of svc0 env_part_fails "''/tmp/hello''" "''/dest''"] c
  have "fst (UploadFile svc0 env_part_fails ''/tmp/hello'' ''/dest'')
          = Return (Some UploadedPartsIncomplete)
        \<and> \<not> (\<exists>e\<in>set (snd (UploadFile svc0 env_part_fails ''/tmp/hello'' ''/dest'')). is_commit e)"
    by (metis less_irrefl)
  with posted complete c failed fewer show ?thesis by blast
qed

text \<open>
  C4. Whatever the order in which the part tasks finish (\<open>picks\<close>), a manifest that
  \<open>UploadFile\<close> posts lists its parts in ascending order of \<open>PartNo\<close>; the parts are
  those collected at line 301, in this order.
\<close>

theorem manifest_parts_sorted:
  "\<forall>picks payload.
     Request (PostFiles payload)
       \<in> set (snd (UploadFile u (env\<lparr>order := picks\<rparr>) filePath destDir)) \<longrightarrow>
     sorted (map FilePart.PartNo (FilePayload.Parts payload))
     \<and> (\<exists>c. reached u (env\<lparr>order := picks\<rparr>) filePath destDir = Some c
            \<and> mset (FilePayload.Parts payload) = mset (c_parts c))"
proof (intro allI impI)
  fix picks payload
  let ?env = "env\<lparr>order := picks\<rparr>"
  assume posted: "Request (PostFiles payload) \<in> set (snd (UploadFile u ?env filePath destDir))"
  have "is_commit (Request (PostFiles payload))" by simp
  with posted have "reached u ?env filePath destDir \<noteq> None"
    using reached_None by blast
  then obtain c where c: "reached u ?env filePath destDir = Some c" by blast
  from committed_manifest [OF c posted] obtain mimeType fileSize name where
    "payload = manifest destDir mimeType fileSize name c"
    by blast
  then have parts: "FilePayload.Parts payload = sort_key FilePart.PartNo (c_parts c)"
    by (simp add: manifest_def)
  have "sorted (map FilePart.PartNo (FilePayload.Parts payload))"
    unfolding parts by (rule sorted_sort_key)
  moreover have "mset (FilePayload.Parts payload) = mset (c_parts c)"
    unfolding parts by (rule mset_sort)
  ultimately show "sorted (map FilePart.PartNo (FilePayload.Parts payload))
     \<and> (\<exists>c. reached u ?env filePath destDir = Some c
            \<and> mset (FilePayload.Parts payload) = mset (c_parts c))"
    using c by blast
qed

theorem manifest_parts_sorted_witness:
  "Request (PostFiles
     \<lparr>FilePayload.Name = ''hello'', Type = ''file'',
      FilePayload.Parts =
        [\<lparr>ID = 101, FilePart.PartNo = 1, FilePart.Salt = ''salt''\<rparr>,
         \<lparr>ID = 102, FilePart.PartNo = 2, FilePart.Salt = ''salt''\<rparr>,
         \<lparr>ID = 103, FilePart.PartNo = 3, FilePart.Salt = ''salt''\<rparr>],
      MimeType = ''text/plain'', Path = ''/dest'', FilePayload.Size = 5,
      FilePayload.ChannelID = 7, FilePayload.Encrypted = False\<rparr>)
     \<in> set (snd (UploadFile svc0 (env0\<lparr>order := [2, 0]\<rparr>) ''/tmp/hello'' ''/dest''))
   \<and> map FilePart.PartNo
         (c_parts (the (reached svc0 (env0\<lparr>order := [2, 0]\<rparr>) ''/tmp/hello'' ''/dest'')))
       = [3, 1, 2]
   \<and> sorted (map FilePart.PartNo
        (FilePayload.Parts
          \<lparr>FilePayload.Name = ''hello'', Type = ''file'',
           FilePayload.Parts =
             [\<lparr>ID = 101, FilePart.PartNo = 1, FilePart.Salt = ''salt''\<rparr>,
              \<lparr>ID = 102, FilePart.PartNo = 2, FilePart.Salt = ''salt''\<rparr>,
              \<lparr>ID = 103, FilePart.PartNo = 3, FilePart.Salt = ''salt''\<rparr>],
           MimeType = ''text/plain'', Path = ''/dest'', FilePayload.Size = 5,
           FilePayload.ChannelID = 7, FilePayload.Encrypted = False\<rparr>))"
proof -
  let ?payload = "\<lparr>FilePayload.Name = ''hello'', Type = ''file'',
      FilePayload.Parts =
        [\<lparr>ID = 101, FilePart.PartNo = 1, FilePart.Salt = ''salt''\<rparr>,
         \<lparr>ID = 102, FilePart.PartNo = 2, FilePart.Salt = ''salt''\<rparr>,
         \<lparr>ID = 103, FilePart.PartNo = 3, FilePart.Salt = ''salt''\<rparr>],
      MimeType = ''text/plain'', Path = ''/dest'', FilePayload.Size = 5,
      FilePayload.ChannelID = 7, FilePayload.Encrypted = False\<rparr>"
  have posted: "Request (PostFiles ?payload)
      \<in> set (snd (UploadFile svc0 (env0\<lparr>order := [2, 0]\<rparr>) ''/tmp/hello'' ''/dest''))"
    by code_simp
  have collected: "map FilePart.PartNo
         (c_parts (the (reached svc0 (env0\<lparr>order := [2, 0]\<rparr>) ''/tmp/hello'' ''/dest'')))
       = [3, 1, 2]"
    by code_simp
  from manifest_parts_sorted [of svc0 env0 "''/tmp/hello''" "''/dest''"] posted
  have "sorted (map FilePart.PartNo (FilePayload.Parts ?payload))"
    by blast
  with posted collected show ?thesis by blast
qed

text \<open>
  C9. In a run that reaches line 301, the channel delivers the records the tasks sent,
  and \<open>parts\<close> keeps of them exactly those with a part id and a size other than zero.
  When a delivered record has part id 0 or size 0, the run ends with the error
  "uploaded parts incomplete" and posts no manifest. Every part of a posted manifest has
  an id other than zero and comes from a delivered record of a size other than zero.
\<close>

theorem zero_parts_excluded:
  "\<forall>c. reached u env filePath destDir = Some c \<longrightarrow>
     c_uploadedParts c = List.map_filter (\<lambda>(partNumber, events, sent). sent) (c_results c)
   \<and> c_parts c =
       map (\<lambda>p. \<lparr>ID = PartId p, FilePart.PartNo = PartFile.PartNo p,
                  FilePart.Salt = PartFile.Salt p\<rparr>)
         (filter (\<lambda>p. PartId p \<noteq> 0 \<and> PartFile.Size p \<noteq> 0) (c_uploadedParts c))
   \<and> ((\<exists>p\<in>set (c_uploadedParts c). PartId p = 0 \<or> PartFile.Size p = 0) \<longrightarrow>
         fst (UploadFile u env filePath destDir) = Return (Some UploadedPartsIncomplete)
       \<and> \<not> (\<exists>e\<in>set (snd (UploadFile u env filePath destDir)). is_commit e))
   \<and> (\<forall>payload.
         Request (PostFiles payload) \<in> set (snd (UploadFile u env filePath destDir)) \<longrightarrow>
         (\<forall>part\<in>set (FilePayload.Parts payload).
            ID part \<noteq> 0
          \<and> (\<exists>p\<in>set (c_uploadedParts c).
                PartId p = ID part \<and> PartFile.PartNo p = FilePart.PartNo part
              \<and> PartFile.Salt p = FilePart.Salt part \<and> PartFile.Size p \<noteq> 0)))"
proof (intro allI impI)
  fix c
  assume c: "reached u env filePath destDir = Some c"
  let ?keep = "\<lambda>p. PartId p \<noteq> 0 \<and> PartFile.Size p \<noteq> 0"
  let ?part = "\<lambda>p. \<lparr>ID = PartId p, FilePart.PartNo = PartFile.PartNo p,
                     FilePart.Salt = PartFile.Salt p\<rparr>"
  note counts = reached_counts [OF c]
  have delivered: "c_uploadedParts c =
      List.map_filter (\<lambda>(partNumber, events, sent). sent) (c_results c)"
    using counts by simp
  have kept: "c_parts c = map ?part (filter ?keep (c_uploadedParts c))"
    using counts by simp
  have dropped: "fst (UploadFile u env filePath destDir) = Return (Some UploadedPartsIncomplete)
       \<and> \<not> (\<exists>e\<in>set (snd (UploadFile u env filePath destDir)). is_commit e)"
    if "\<exists>p\<in>set (c_uploadedParts c). PartId p = 0 \<or> PartFile.Size p = 0"
  proof -
    from that obtain p where p: "p \<in> set (c_uploadedParts c)" "\<not> ?keep p" by blast
    then have "length (filter ?keep (c_uploadedParts c)) < length (c_uploadedParts c)"
      by (rule length_filter_less)
    moreover have "length (c_uploadedParts c) \<le> length (c_results c)"
      unfolding delivered by (simp add: map_filter_def)
    ultimately have "int (length (c_parts c)) < c_totalParts c"
      using counts kept by simp
    then have ne: "int (length (c_parts c)) \<noteq> c_totalParts c" by simp
    show ?thesis
      using incomplete_outcome [OF c ne] commit_iff_complete [OF c] ne by simp
  qed
  have posted: "\<forall>part\<in>set (FilePayload.Parts payload).
            ID part \<noteq> 0
          \<and> (\<exists>p\<in>set (c_uploadedParts c).
                PartId p = ID part \<and> PartFile.PartNo p = FilePart.PartNo part
              \<and> PartFile.Salt p = FilePart.Salt part \<and> PartFile.Size p \<noteq> 0)"
    if "Request (PostFiles payload) \<in> set (snd (UploadFile u env filePath destDir))"
    for payload
  proof
    fix part
    assume part: "part \<in> set (FilePayload.Parts payload)"
    from committed_manifest [OF c that] obtain mimeType fileSize name where
      "payload = manifest destDir mimeType fileSize name c"
      by blast
    then have "set (FilePayload.Parts payload) = set (c_parts c)"
      by (simp add: manifest_def)
    with part kept obtain p where "p \<in> set (c_uploadedParts c)" "?keep p" "part = ?part p"
      by auto
    then show "ID part \<noteq> 0
          \<and> (\<exists>p\<in>set (c_uploadedParts c).
                PartId p = ID part \<and> PartFile.PartNo p = FilePart.PartNo part
              \<and> PartFile.Salt p = FilePart.Salt part \<and> PartFile.Size p \<noteq> 0)"
      by auto
  qed
  show "c_uploadedParts c = List.map_filter (\<lambda>(partNumber, events, sent). sent) (c_results c)
   \<and> c_parts c = map ?part (filter ?keep (c_uploadedParts c))
   \<and> ((\<exists>p\<in>set (c_uploadedParts c). PartId p = 0 \<or> PartFile.Size p = 0) \<longrightarrow>
         fst (UploadFile u env filePath destDir) = Return (Some UploadedPartsIncomplete)
       \<and> \<not> (\<exists>e\<in>set (snd (UploadFile u env filePath destDir)). is_commit e))
   \<and> (\<forall>payload.
         Request (PostFiles payload) \<in> set (snd (UploadFile u env filePath destDir)) \<longrightarrow>
         (\<forall>part\<in>set (FilePayload.Parts payload).
            ID part \<noteq> 0
          \<and> (\<exists>p\<in>set (c_uploadedParts c).
                PartId p = ID part \<and> PartFile.PartNo p = FilePart.PartNo part
              \<and> PartFile.Salt p = FilePart.Salt part \<and> PartFile.Size p \<noteq> 0)))"
    using delivered kept dropped posted by blast
qed

theorem zero_parts_excluded_witness:
  "(\<exists>c. reached svc0 env_zero_id ''/tmp/hello'' ''/dest'' = Some c
       \<and> (\<exists>p\<in>set (c_uploadedParts c). PartId p = 0 \<or> PartFile.Size p = 0)
       \<and> length (c_uploadedParts c) = 3 \<and> length (c_parts c) = 2)
   \<and> fst (UploadFile svc0 env_zero_id ''/tmp/hello'' ''/dest'')
       = Return (Some UploadedPartsIncomplete)
   \<and> \<not> (\<exists>e\<in>set (snd (UploadFile svc0 env_zero_id ''/tmp/hello'' ''/dest'')). is_commit e)"
proof -
  have "case reached svc0 env_zero_id ''/tmp/hello'' ''/dest'' of
          None \<Rightarrow> False
        | Some c \<Rightarrow> (\<exists>p\<in>set (c_uploadedParts c). PartId p = 0 \<or> PartFile.Size p = 0)
            \<and> length (c_uploadedParts c) = 3 \<and> length (c_parts c) = 2"
    by code_simp
  then obtain c where c: "reached svc0 env_zero_id ''/tmp/hello'' ''/dest'' = Some c"
    and zero: "\<exists>p\<in>set (c_uploadedParts c). PartId p = 0 \<or> PartFile.Size p = 0"
    and lengths: "length (c_uploadedParts c) = 3" "length (c_parts c) = 2"
    by (cases "reached svc0 env_zero_id ''/tmp/hello'' ''/dest''") auto
  from zero_parts_excluded [of svc0 env_zero_id "''/tmp/hello''" "''/dest''"] c zero
  have "fst (UploadFile svc0 env_zero_id ''/tmp/hello'' ''/dest'')
          = Return (Some UploadedPartsIncomplete)
      \<and> \<not> (\<exists>e\<in>set (snd (UploadFile svc0 env_zero_id ''/tmp/hello'' ''/dest'')). is_commit e)"
    by blast
  with c zero lengths show ?thesis by blast
qed

text \<open>
  C10. For an empty local file the first read returns \<open>io.EOF\<close>: \<open>UploadFile\<close> logs
  at the fatal level and returns that error, and nothing is sent to the remote API.
\<close>

theorem empty_file_fails_before_network:
  assumes "os_Open env filePath = Some []"
  shows "UploadFile u env filePath destDir
           = (Return (Some EOF), [Log FatalLevel ''read file failed''])
       \<and> \<not> (\<exists>e\<in>set (snd (UploadFile u env filePath destDir)). is_network e)"
proof -
  have "file_Read [] 512 = Inl EOF"
    by (simp add: file_Read_def)
  with assms have "UploadFile_init u env filePath destDir
      = Inl (Return (Some EOF), [Log FatalLevel ''read file failed''])"
    by (simp add: UploadFile_init_def)
  then have "UploadFile u env filePath destDir
      = (Return (Some EOF), [Log FatalLevel ''read file failed''])"
    by (simp add: UploadFile_def)
  then show ?thesis by simp
qed

theorem empty_file_fails_before_network_witness:
  "os_Open env_empty ''/tmp/hello'' = Some []
   \<and> UploadFile svc0 env_empty ''/tmp/hello'' ''/dest''
       = (Return (Some EOF), [Log FatalLevel ''read file failed''])
   \<and> \<not> (\<exists>e\<in>set (snd (UploadFile svc0 env_empty ''/tmp/hello'' ''/dest'')). is_network e)"
proof -
  have empty: "os_Open env_empty ''/tmp/hello'' = Some []"
    by (simp add: env_empty_def)
  from empty_file_fails_before_network [OF empty, of svc0 "''/dest''"] empty
  show ?thesis by blast
qed

lemma progress_after_append:
  "progress_after (xs @ ys) p = progress_after ys (progress_after xs p)"
  by (induction xs p rule: progress_after.induct) simp_all

lemma progress_after_quiet:
  "\<forall>e\<in>set es. is_network e \<or> is_log e \<Longrightarrow> progress_after es p = p"
  by (induction es p rule: progress_after.induct) simp_all

lemma checkFileExists_quiet:
  "\<forall>e\<in>set (fst (checkFileExists u env name path)). is_network e \<or> is_log e"
  by (auto simp add: checkFileExists_events)

text \<open>
  C6. When the local file can be read and \<open>checkFileExists\<close> reports the file as
  present (\<open>exists\<close> true, no error), \<open>UploadFile\<close> returns nil; its events are those of
  the existence check, between the new bar and \<open>AddExisting\<close> with the size of the file;
  every request sent is the one of the existence check (no session lookup, part upload,
  manifest or session delete); and \<open>existingBytes\<close> grows by the size of the file.
\<close>

theorem existing_file_skipped:
  assumes "os_Open env filePath = Some file" and "file \<noteq> []"
    and "checkFileExists u env (Base env filePath) destDir = (events, True, None)"
  shows "UploadFile u env filePath destDir =
           (Return None,
            AddBar (Base env filePath) (int (length file)) # events
            @ [AddExisting (int (length file)), Log InfoLevel ''file exists'', BarClose])
       \<and> (\<forall>e\<in>set (snd (UploadFile u env filePath destDir)).
             is_network e \<longrightarrow> e = Request (FindFile destDir (Base env filePath)))
       \<and> Request (FindFile destDir (Base env filePath))
           \<in> set (snd (UploadFile u env filePath destDir))
       \<and> progress_after (snd (UploadFile u env filePath destDir)) p
           = Progress_AddExisting (real_of_int (int (length file))) p
       \<and> existingBytes (progress_after (snd (UploadFile u env filePath destDir)) p)
           = existingBytes p + real (length file)"
proof -
  let ?name = "Base env filePath"
  let ?size = "int (length file)"
  have "\<exists>buffer. file_Read file 512 = Inr buffer"
    using assms(2) by (simp add: file_Read_def)
  then have "UploadFile_init u env filePath destDir =
      Inl (Return None,
           AddBar ?name ?size # events
           @ [AddExisting ?size, Log InfoLevel ''file exists'', BarClose])"
    using assms(1,3) by (auto simp add: UploadFile_init_def Let_def)
  then have run: "UploadFile u env filePath destDir =
      (Return None,
       AddBar ?name ?size # events
       @ [AddExisting ?size, Log InfoLevel ''file exists'', BarClose])"
    by (simp add: UploadFile_def)
  have events: "events = fst (checkFileExists u env ?name destDir)"
    using assms(3) by simp
  have only: "\<forall>e\<in>set (snd (UploadFile u env filePath destDir)).
      is_network e \<longrightarrow> e = Request (FindFile destDir ?name)"
    unfolding run events using checkFileExists_network by auto
  have "pacer_Call u (find env destDir ?name) \<noteq> []"
    by (rule pacer_Call_nonempty)
  then have sent: "Request (FindFile destDir ?name)
      \<in> set (snd (UploadFile u env filePath destDir))"
    unfolding run events checkFileExists_events
    by (cases "pacer_Call u (find env destDir ?name)") auto
  have "progress_after events p = p"
    unfolding events using checkFileExists_quiet by (rule progress_after_quiet)
  then have totals: "progress_after (snd (UploadFile u env filePath destDir)) p
      = Progress_AddExisting (real_of_int ?size) p"
    unfolding run by (simp add: progress_after_append)
  then have "existingBytes (progress_after (snd (UploadFile u env filePath destDir)) p)
      = existingBytes p + real (length file)"
    by (simp add: Progress_AddExisting_def)
  with run only sent totals show ?thesis by blast
qed

theorem existing_file_skipped_witness:
  "os_Open env_exists ''/tmp/hello'' = Some ''hello'' \<and> ''hello'' \<noteq> []
   \<and> checkFileExists svc0 env_exists (Base env_exists ''/tmp/hello'') ''/dest''
       = ([Log DebugLevel ''checking file exists'', Request (FindFile ''/dest'' ''hello'')],
          True, None)
   \<and> UploadFile svc0 env_exists ''/tmp/hello'' ''/dest'' =
       (Return None,
        [AddBar ''hello'' 5, Log DebugLevel ''checking file exists'',
         Request (FindFile ''/dest'' ''hello''), AddExisting 5,
         Log InfoLevel ''file exists'', BarClose])
   \<and> existingBytes
        (progress_after (snd (UploadFile svc0 env_exists ''/tmp/hello'' ''/dest''))
           \<lparr>existing = 0, existingBytes = 0\<rparr>) = 5"
proof -
  have opened: "os_Open env_exists ''/tmp/hello'' = Some ''hello''"
    by (simp add: env_exists_def env0_def)
  have nonempty: "''hello'' \<noteq> []"
    by simp
  have found: "checkFileExists svc0 env_exists (Base env_exists ''/tmp/hello'') ''/dest''
       = ([Log DebugLevel ''checking file exists'', Request (FindFile ''/dest'' ''hello'')],
          True, None)"
    by code_simp
  have name: "Base env_exists ''/tmp/hello'' = ''hello''"
    by (simp add: env_exists_def env0_def)
  note skipped = existing_file_skipped [OF opened nonempty found,
      of "\<lparr>existing = 0, existingBytes = 0\<rparr>"]
  from skipped [THEN conjunct1]
  have run: "UploadFile svc0 env_exists ''/tmp/hello'' ''/dest'' =
       (Return None,
        [AddBar ''hello'' 5, Log DebugLevel ''checking file exists'',
         Request (FindFile ''/dest'' ''hello''), AddExisting 5,
         Log InfoLevel ''file exists'', BarClose])"
    by (simp add: name)
  from skipped [THEN conjunct2, THEN conjunct2, THEN conjunct2, THEN conjunct2]
  have bytes: "existingBytes
        (progress_after (snd (UploadFile svc0 env_exists ''/tmp/hello'' ''/dest''))
           \<lparr>existing = 0, existingBytes = 0\<rparr>) = 5"
    by simp
  from opened nonempty found run bytes show ?thesis
    by (intro conjI)
qed

text \<open>What a task that sends a request does.\<close>

lemma task_request:
  assumes "part_task u env name url existingParts tp ch enc i s e = (evs, sent)"
    and "Request (PostPart url' q) \<in> set evs"
  shows "url' = url \<and> q = part_opts u env name tp ch enc i s e
       \<and> worker_Open env i \<and> existingParts (i + 1) = None \<and> worker_Seek env i
       \<and> filter is_network evs = [Request (PostPart url q)]
       \<and> sent = (case postPart env url q of
                   Answers status partFile \<Rightarrow> if status = 201 then Some partFile else None
                 | Fails err r v \<Rightarrow> None)
       \<and> ((\<exists>err r v. postPart env url q = Fails err r v)
            \<longrightarrow> Log ErrorLevel ''send part file failed'' \<in> set evs)"
  using part_task_cases [OF assms(1)] assms(2)
  by (auto split: reply.splits if_splits)

lemma task_quiet:
  assumes "part_task u env name url existingParts tp ch enc i s e = (evs, sent)"
    and "ev \<in> set evs" and "is_network ev"
  shows "ev = Request (PostPart url (part_opts u env name tp ch enc i s e))"
  using part_task_cases [OF assms(1)] assms(2,3)
  by (auto split: reply.splits if_splits)

lemma task_existing:
  assumes "part_task u env name url existingParts tp ch enc i s e = (evs, sent)"
    and "existingParts (i + 1) = Some ex"
  shows "\<not> (\<exists>ev\<in>set evs. is_network ev)
       \<and> (worker_Open env i \<longrightarrow> sent = Some ex \<and> evs = [BarIncrInt64 (PartFile.Size ex)])
       \<and> (\<not> worker_Open env i \<longrightarrow> sent = None)"
  using part_task_cases [OF assms(1)] assms(2)
  by (auto split: reply.splits if_splits)

lemma part_opts_fields:
  "q_partNo (part_opts u env name tp ch enc i s e) = i + 1"
  "q_channelId (part_opts u env name tp ch enc i s e) = ch"
  "q_encrypted (part_opts u env name tp ch enc i s e) = enc"
  by (simp_all add: part_opts_def Let_def)

lemma reached_settings:
  assumes "reached u env filePath destDir = Some c"
  shows "(\<exists>file. os_Open env filePath = Some file
           \<and> c_uploadFile c
               = fst (snd (session_lookup u env (c_uploadURL c) (int (length file))))
           \<and> c_existingParts c
               = snd (snd (session_lookup u env (c_uploadURL c) (int (length file)))))
       \<and> c_channelID c =
            (case UploadFile_body.Parts (c_uploadFile c) of
               [] \<Rightarrow> channelID u | first # others \<Rightarrow> PartFile.ChannelID first)
       \<and> c_encryptFile c =
            (case UploadFile_body.Parts (c_uploadFile c) of
               [] \<Rightarrow> encryptFiles u | first # others \<Rightarrow> PartFile.Encrypted first)"
proof -
  from reached_Some [OF assms] obtain mimeType fileSize name events where
    init: "UploadFile_init u env filePath destDir = Inr (mimeType, fileSize, name, events)"
    and parts: "UploadFile_parts u env destDir fileSize name = Inr c"
    by blast
  from UploadFile_init_Inr [OF init] obtain content where
    "os_Open env filePath = Some content" "fileSize = int (length content)"
    by blast
  then show ?thesis
    using UploadFile_parts_Inr [OF parts] by auto
qed

text \<open>
  C8. In a run that reaches line 301, \<open>uploadFile\<close> is what the session lookup left in
  it (no parts when no lookup is made). When it has at least one part, the channel and
  the encryption flag are those of its first part, otherwise the defaults of the
  service; every part upload of the run carries them, and so does the manifest.
\<close>

theorem resumed_settings_inherited:
  "\<forall>c. reached u env filePath destDir = Some c \<longrightarrow>
     (\<exists>file. os_Open env filePath = Some file
        \<and> c_uploadFile c
            = fst (snd (session_lookup u env (c_uploadURL c) (int (length file)))))
   \<and> (c_channelID c, c_encryptFile c) =
        (case UploadFile_body.Parts (c_uploadFile c) of
           [] \<Rightarrow> (channelID u, encryptFiles u)
         | first # others \<Rightarrow> (PartFile.ChannelID first, PartFile.Encrypted first))
   \<and> (\<forall>url q.
         Request (PostPart url q) \<in> set (snd (UploadFile u env filePath destDir)) \<longrightarrow>
         q_channelId q = c_channelID c \<and> q_encrypted q = c_encryptFile c)
   \<and> (\<forall>payload.
         Request (PostFiles payload) \<in> set (snd (UploadFile u env filePath destDir)) \<longrightarrow>
         FilePayload.ChannelID payload = c_channelID c
       \<and> FilePayload.Encrypted payload = c_encryptFile c)"
proof (intro allI impI)
  fix c
  assume c: "reached u env filePath destDir = Some c"
  note settings = reached_settings [OF c]
  have looked: "\<exists>file. os_Open env filePath = Some file
        \<and> c_uploadFile c
            = fst (snd (session_lookup u env (c_uploadURL c) (int (length file))))"
    using settings by blast
  have chosen: "(c_channelID c, c_encryptFile c) =
        (case UploadFile_body.Parts (c_uploadFile c) of
           [] \<Rightarrow> (channelID u, encryptFiles u)
         | first # others \<Rightarrow> (PartFile.ChannelID first, PartFile.Encrypted first))"
    using settings by (cases "UploadFile_body.Parts (c_uploadFile c)") simp_all
  have uploads: "q_channelId q = c_channelID c \<and> q_encrypted q = c_encryptFile c"
    if "Request (PostPart url q) \<in> set (snd (UploadFile u env filePath destDir))" for url q
  proof -
    from part_upload_of_task [OF c that] obtain i evs sent where
      task: "(i, evs, sent) \<in> set (c_results c)" and sent: "Request (PostPart url q) \<in> set evs"
      by blast
    from reached_task [OF c task] obtain name s e where
      "part_task u env name (c_uploadURL c) (c_existingParts c) (c_totalParts c)
         (c_channelID c) (c_encryptFile c) i s e = (evs, sent)"
      by blast
    from task_request [OF this sent] have
      "q = part_opts u env name (c_totalParts c) (c_channelID c) (c_encryptFile c) i s e"
      by blast
    then show ?thesis by (simp add: part_opts_fields)
  qed
  have posted: "FilePayload.ChannelID payload = c_channelID c
       \<and> FilePayload.Encrypted payload = c_encryptFile c"
    if "Request (PostFiles payload) \<in> set (snd (UploadFile u env filePath destDir))"
    for payload
  proof -
    from committed_manifest [OF c that] obtain mimeType fileSize name where
      "payload = manifest destDir mimeType fileSize name c"
      by blast
    then show ?thesis by (simp add: manifest_def)
  qed
  from looked chosen uploads posted
  show "(\<exists>file. os_Open env filePath = Some file
        \<and> c_uploadFile c
            = fst (snd (session_lookup u env (c_uploadURL c) (int (length file)))))
   \<and> (c_channelID c, c_encryptFile c) =
        (case UploadFile_body.Parts (c_uploadFile c) of
           [] \<Rightarrow> (channelID u, encryptFiles u)
         | first # others \<Rightarrow> (PartFile.ChannelID first, PartFile.Encrypted first))
   \<and> (\<forall>url q.
         Request (PostPart url q) \<in> set (snd (UploadFile u env filePath destDir)) \<longrightarrow>
         q_channelId q = c_channelID c \<and> q_encrypted q = c_encryptFile c)
   \<and> (\<forall>payload.
         Request (PostFiles payload) \<in> set (snd (UploadFile u env filePath destDir)) \<longrightarrow>
         FilePayload.ChannelID payload = c_channelID c
       \<and> FilePayload.Encrypted payload = c_encryptFile c)"
    by blast
qed

theorem resumed_settings_inherited_witness:
  "(\<exists>c. reached svc0 env_resume ''/tmp/hello'' ''/dest'' = Some c
       \<and> UploadFile_body.Parts (c_uploadFile c) = [stored 1, stored 2]
       \<and> c_channelID c = 99 \<and> c_encryptFile c = True)
   \<and> channelID svc0 = 7 \<and> encryptFiles svc0 = False
   \<and> Request (PostPart ''/api/uploads/5d41402abc4b2a76b9719d911017c592''
        \<lparr>q_partName = ''hello.part'', q_fileName = ''hello'', q_partNo = 3,
         q_channelId = 99, q_encrypted = True, ContentLength = 1\<rparr>)
       \<in> set (snd (UploadFile svc0 env_resume ''/tmp/hello'' ''/dest''))
   \<and> (\<exists>c. reached svc0 env0 ''/tmp/hello'' ''/dest'' = Some c
       \<and> UploadFile_body.Parts (c_uploadFile c) = []
       \<and> c_channelID c = 7 \<and> c_encryptFile c = False)"
proof -
  let ?q = "\<lparr>q_partName = ''hello.part'', q_fileName = ''hello'', q_partNo = 3,
         q_channelId = 99, q_encrypted = True, ContentLength = 1\<rparr>"
  have "case reached svc0 env_resume ''/tmp/hello'' ''/dest'' of
          None \<Rightarrow> False
        | Some c \<Rightarrow> UploadFile_body.Parts (c_uploadFile c) = [stored 1, stored 2]"
    by code_simp
  then obtain c where c: "reached svc0 env_resume ''/tmp/hello'' ''/dest'' = Some c"
    and session: "UploadFile_body.Parts (c_uploadFile c) = [stored 1, stored 2]"
    by (cases "reached svc0 env_resume ''/tmp/hello'' ''/dest''") auto
  have sent: "Request (PostPart ''/api/uploads/5d41402abc4b2a76b9719d911017c592'' ?q)
       \<in> set (snd (UploadFile svc0 env_resume ''/tmp/hello'' ''/dest''))"
    by code_simp
  from resumed_settings_inherited [of svc0 env_resume "''/tmp/hello''" "''/dest''"] c sent
  have "q_channelId ?q = c_channelID c \<and> q_encrypted ?q = c_encryptFile c"
    by blast
  then have inherited: "c_channelID c = 99 \<and> c_encryptFile c = True"
    by simp
  have "case reached svc0 env0 ''/tmp/hello'' ''/dest'' of
          None \<Rightarrow> False
        | Some c \<Rightarrow> UploadFile_body.Parts (c_uploadFile c) = []"
    by code_simp
  then obtain c' where c': "reached svc0 env0 ''/tmp/hello'' ''/dest'' = Some c'"
    and fresh: "UploadFile_body.Parts (c_uploadFile c') = []"
    by (cases "reached svc0 env0 ''/tmp/hello'' ''/dest''") auto
  from resumed_settings_inherited [of svc0 env0 "''/tmp/hello''" "''/dest''"] c'
  have "(c_channelID c', c_encryptFile c') =
        (case UploadFile_body.Parts (c_uploadFile c') of
           [] \<Rightarrow> (channelID svc0, encryptFiles svc0)
         | first # others \<Rightarrow> (PartFile.ChannelID first, PartFile.Encrypted first))"
    by blast
  then have defaults: "c_channelID c' = 7 \<and> c_encryptFile c' = False"
    by (simp add: fresh svc0_def)
  have "channelID svc0 = 7 \<and> encryptFiles svc0 = False"
    by (simp add: svc0_def)
  with c session inherited sent c' fresh defaults show ?thesis by blast
qed

text \<open>
  C3, as amended. In a run that reaches line 301, take a part task whose 1-based part
  number is a key of \<open>existingParts\<close>. The task sends no request; if it can open the
  local file it sends the existing record, unchanged, on the channel and its only event
  is the signal of that record's size to the progress bar; if it cannot, it sends
  nothing. A task that sends a request has a part number with no existing record, and
  sends one request, for that part. So every part upload of the run is for a planned
  part with no existing record. The keys of \<open>existingParts\<close> are the part numbers of the
  records of the session.
\<close>

theorem resumed_parts_reused:
  "\<forall>c. reached u env filePath destDir = Some c \<longrightarrow>
     (\<forall>partNumber events sent.
        (partNumber, events, sent) \<in> set (c_results c) \<longrightarrow>
          (\<forall>ex. c_existingParts c (partNumber + 1) = Some ex \<longrightarrow>
               \<not> (\<exists>e\<in>set events. is_network e)
             \<and> (worker_Open env partNumber \<longrightarrow>
                  sent = Some ex \<and> events = [BarIncrInt64 (PartFile.Size ex)])
             \<and> (\<not> worker_Open env partNumber \<longrightarrow> sent = None))
        \<and> ((\<exists>e\<in>set events. is_network e) \<longrightarrow>
              c_existingParts c (partNumber + 1) = None
            \<and> (\<exists>q. q_partNo q = partNumber + 1
                  \<and> filter is_network events = [Request (PostPart (c_uploadURL c) q)])))
   \<and> (\<forall>url q.
         Request (PostPart url q) \<in> set (snd (UploadFile u env filePath destDir)) \<longrightarrow>
         c_existingParts c (q_partNo q) = None
       \<and> 1 \<le> q_partNo q \<and> q_partNo q \<le> c_totalParts c)
   \<and> (\<forall>k ex. c_existingParts c k = Some ex \<longrightarrow>
         ex \<in> set (UploadFile_body.Parts (c_uploadFile c)) \<and> PartFile.PartNo ex = k)"
proof (intro allI impI)
  fix c
  assume c: "reached u env filePath destDir = Some c"
  have tasks: "(\<forall>ex. c_existingParts c (partNumber + 1) = Some ex \<longrightarrow>
               \<not> (\<exists>e\<in>set events. is_network e)
             \<and> (worker_Open env partNumber \<longrightarrow>
                  sent = Some ex \<and> events = [BarIncrInt64 (PartFile.Size ex)])
             \<and> (\<not> worker_Open env partNumber \<longrightarrow> sent = None))
        \<and> ((\<exists>e\<in>set events. is_network e) \<longrightarrow>
              c_existingParts c (partNumber + 1) = None
            \<and> (\<exists>q. q_partNo q = partNumber + 1
                  \<and> filter is_network events = [Request (PostPart (c_uploadURL c) q)]))"
    if "(partNumber, events, sent) \<in> set (c_results c)" for partNumber events sent
  proof -
    from reached_task [OF c that] obtain name s e where
      task: "part_task u env name (c_uploadURL c) (c_existingParts c) (c_totalParts c)
         (c_channelID c) (c_encryptFile c) partNumber s e = (events, sent)"
      by blast
    let ?q = "part_opts u env name (c_totalParts c) (c_channelID c) (c_encryptFile c)
                partNumber s e"
    have "c_existingParts c (partNumber + 1) = None
        \<and> (\<exists>q. q_partNo q = partNumber + 1
              \<and> filter is_network events = [Request (PostPart (c_uploadURL c) q)])"
      if "\<exists>ev\<in>set events. is_network ev"
    proof -
      from that obtain ev where ev: "ev \<in> set events" "is_network ev" by blast
      from task_quiet [OF task ev] ev(1)
      have "Request (PostPart (c_uploadURL c) ?q) \<in> set events" by simp
      from task_request [OF task this] show ?thesis
        by (auto simp add: part_opts_fields)
    qed
    then show ?thesis
      using task_existing [OF task] by blast
  qed
  have uploads: "c_existingParts c (q_partNo q) = None
       \<and> 1 \<le> q_partNo q \<and> q_partNo q \<le> c_totalParts c"
    if "Request (PostPart url q) \<in> set (snd (UploadFile u env filePath destDir))" for url q
  proof -
    from part_upload_of_task [OF c that] obtain i evs sent where
      member: "(i, evs, sent) \<in> set (c_results c)" and sent: "Request (PostPart url q) \<in> set evs"
      by blast
    from reached_task [OF c member] obtain name s e where
      range: "0 \<le> i" "i < c_totalParts c"
      and task: "part_task u env name (c_uploadURL c) (c_existingParts c) (c_totalParts c)
         (c_channelID c) (c_encryptFile c) i s e = (evs, sent)"
      by blast
    from task_request [OF task sent] range show ?thesis
      by (auto simp add: part_opts_fields)
  qed
  have keys: "ex \<in> set (UploadFile_body.Parts (c_uploadFile c)) \<and> PartFile.PartNo ex = k"
    if "c_existingParts c k = Some ex" for k ex
  proof -
    from reached_settings [OF c, THEN conjunct1] obtain content where
      session: "os_Open env filePath = Some content
        \<and> c_uploadFile c
            = fst (snd (session_lookup u env (c_uploadURL c) (int (length content))))
        \<and> c_existingParts c
            = snd (snd (session_lookup u env (c_uploadURL c) (int (length content))))" ..
    with that have
      "snd (snd (session_lookup u env (c_uploadURL c) (int (length content)))) k = Some ex"
      by simp
    from session_lookup_existing [OF this] session show ?thesis
      by simp
  qed
  from tasks uploads keys
  show "(\<forall>partNumber events sent.
        (partNumber, events, sent) \<in> set (c_results c) \<longrightarrow>
          (\<forall>ex. c_existingParts c (partNumber + 1) = Some ex \<longrightarrow>
               \<not> (\<exists>e\<in>set events. is_network e)
             \<and> (worker_Open env partNumber \<longrightarrow>
                  sent = Some ex \<and> events = [BarIncrInt64 (PartFile.Size ex)])
             \<and> (\<not> worker_Open env partNumber \<longrightarrow> sent = None))
        \<and> ((\<exists>e\<in>set events. is_network e) \<longrightarrow>
              c_existingParts c (partNumber + 1) = None
            \<and> (\<exists>q. q_partNo q = partNumber + 1
                  \<and> filter is_network events = [Request (PostPart (c_uploadURL c) q)])))
   \<and> (\<forall>url q.
         Request (PostPart url q) \<in> set (snd (UploadFile u env filePath destDir)) \<longrightarrow>
         c_existingParts c (q_partNo q) = None
       \<and> 1 \<le> q_partNo q \<and> q_partNo q \<le> c_totalParts c)
   \<and> (\<forall>k ex. c_existingParts c k = Some ex \<longrightarrow>
         ex \<in> set (UploadFile_body.Parts (c_uploadFile c)) \<and> PartFile.PartNo ex = k)"
    by blast
qed

text \<open>
  The scenario of the specification: the session holds the parts 1 and 2 of 3. The run
  sends one part upload, for part 3, reuses the two records and posts a manifest with
  the parts 1, 2, 3.
\<close>

theorem resumed_parts_reused_witness:
  "(\<exists>c. reached svc0 env_resume ''/tmp/hello'' ''/dest'' = Some c
       \<and> (0, [BarIncrInt64 2], Some (stored 1)) \<in> set (c_results c)
       \<and> c_existingParts c (0 + 1) = Some (stored 1)
       \<and> worker_Open env_resume 0
       \<and> \<not> (\<exists>e\<in>set [BarIncrInt64 2]. is_network e))
   \<and> filter is_part_upload (snd (UploadFile svc0 env_resume ''/tmp/hello'' ''/dest''))
       = [Request (PostPart ''/api/uploads/5d41402abc4b2a76b9719d911017c592''
            \<lparr>q_partName = ''hello.part'', q_fileName = ''hello'', q_partNo = 3,
             q_channelId = 99, q_encrypted = True, ContentLength = 1\<rparr>)]
   \<and> Request (PostFiles
        \<lparr>FilePayload.Name = ''hello'', Type = ''file'',
         FilePayload.Parts =
           [\<lparr>ID = 201, FilePart.PartNo = 1, FilePart.Salt = ''pepper''\<rparr>,
            \<lparr>ID = 202, FilePart.PartNo = 2, FilePart.Salt = ''pepper''\<rparr>,
            \<lparr>ID = 103, FilePart.PartNo = 3, FilePart.Salt = ''salt''\<rparr>],
         MimeType = ''text/plain'', Path = ''/dest'', FilePayload.Size = 5,
         FilePayload.ChannelID = 99, FilePayload.Encrypted = True\<rparr>)
       \<in> set (snd (UploadFile svc0 env_resume ''/tmp/hello'' ''/dest''))"
proof -
  have "case reached svc0 env_resume ''/tmp/hello'' ''/dest'' of
          None \<Rightarrow> False
        | Some c \<Rightarrow> (0, [BarIncrInt64 2], Some (stored 1)) \<in> set (c_results c)
            \<and> c_existingParts c (0 + 1) = Some (stored 1)"
    by code_simp
  then obtain c where c: "reached svc0 env_resume ''/tmp/hello'' ''/dest'' = Some c"
    and task: "(0, [BarIncrInt64 2], Some (stored 1)) \<in> set (c_results c)"
    and existing: "c_existingParts c (0 + 1) = Some (stored 1)"
    by (cases "reached svc0 env_resume ''/tmp/hello'' ''/dest''") auto
  have opened: "worker_Open env_resume 0"
    by (simp add: env_resume_def env0_def)
  from resumed_parts_reused [of svc0 env_resume "''/tmp/hello''" "''/dest''"] c task existing
  have quiet: "\<not> (\<exists>e\<in>set [BarIncrInt64 2]. is_network e)"
    by blast
  have uploads: "filter is_part_upload (snd (UploadFile svc0 env_resume ''/tmp/hello'' ''/dest''))
       = [Request (PostPart ''/api/uploads/5d41402abc4b2a76b9719d911017c592''
            \<lparr>q_partName = ''hello.part'', q_fileName = ''hello'', q_partNo = 3,
             q_channelId = 99, q_encrypted = True, ContentLength = 1\<rparr>)]"
    by code_simp
  have posted: "Request (PostFiles
        \<lparr>FilePayload.Name = ''hello'', Type = ''file'',
         FilePayload.Parts =
           [\<lparr>ID = 201, FilePart.PartNo = 1, FilePart.Salt = ''pepper''\<rparr>,
            \<lparr>ID = 202, FilePart.PartNo = 2, FilePart.Salt = ''pepper''\<rparr>,
            \<lparr>ID = 103, FilePart.PartNo = 3, FilePart.Salt = ''salt''\<rparr>],
         MimeType = ''text/plain'', Path = ''/dest'', FilePayload.Size = 5,
         FilePayload.ChannelID = 99, FilePayload.Encrypted = True\<rparr>)
       \<in> set (snd (UploadFile svc0 env_resume ''/tmp/hello'' ''/dest''))"
    by code_simp
  from c task existing opened quiet uploads posted show ?thesis by blast
qed

text \<open>
  C3 as stated fails when a task cannot open the local file: the session holds part 1,
  and the task of part 1 logs the failure and sends nothing on the channel.
\<close>

theorem resumed_part_not_emitted_counterexample:
  "reached svc0 env_reopen_fails ''/tmp/hello'' ''/dest'' \<noteq> None
   \<and> c_existingParts (the (reached svc0 env_reopen_fails ''/tmp/hello'' ''/dest'')) (0 + 1)
       = Some (stored 1)
   \<and> (0, [Log ErrorLevel ''open file failed''], None)
       \<in> set (c_results (the (reached svc0 env_reopen_fails ''/tmp/hello'' ''/dest'')))"
  by code_simp

text \<open>
  C7, as amended. In a run that reaches line 301 every part upload in the trace is the
  request of one part task. A task that sends a part upload sends this one request and
  no other, whatever the reply (no retry); it puts a record on the channel exactly when
  the call returns no error and the status 201, and the record is the decoded body;
  when the call returns an error, the failure is logged. No other task of the run sends
  a request for the same part number (no second attempt).
\<close>

theorem part_upload_once_201:
  "\<forall>c. reached u env filePath destDir = Some c \<longrightarrow>
     (\<forall>url q.
        Request (PostPart url q) \<in> set (snd (UploadFile u env filePath destDir)) \<longrightarrow>
        (\<exists>partNumber events sent.
           (partNumber, events, sent) \<in> set (c_results c)
         \<and> Request (PostPart url q) \<in> set events))
   \<and> (\<forall>partNumber events sent url q.
         (partNumber, events, sent) \<in> set (c_results c)
         \<and> Request (PostPart url q) \<in> set events \<longrightarrow>
           filter is_network events = [Request (PostPart url q)]
         \<and> sent = (case postPart env url q of
                     Answers status partFile \<Rightarrow> if status = 201 then Some partFile else None
                   | Fails err r v \<Rightarrow> None)
         \<and> ((\<exists>err r v. postPart env url q = Fails err r v) \<longrightarrow>
               Log ErrorLevel ''send part file failed'' \<in> set events)
         \<and> (\<forall>partNumber' events' sent' url' q'.
               (partNumber', events', sent') \<in> set (c_results c)
               \<and> Request (PostPart url' q') \<in> set events'
               \<and> q_partNo q' = q_partNo q \<longrightarrow>
               partNumber' = partNumber \<and> events' = events \<and> sent' = sent))"
proof (intro allI impI)
  fix c
  assume c: "reached u env filePath destDir = Some c"
  have distinct: "distinct (map fst (c_results c))"
    using reached_counts [OF c] by blast
  have number: "q_partNo q = i + 1"
    if "(i, evs, sent) \<in> set (c_results c)" and "Request (PostPart url q) \<in> set evs"
    for i evs sent url q
  proof -
    from reached_task [OF c that(1)] obtain name s e where
      "part_task u env name (c_uploadURL c) (c_existingParts c) (c_totalParts c)
         (c_channelID c) (c_encryptFile c) i s e = (evs, sent)"
      by blast
    from task_request [OF this that(2)] show ?thesis
      by (simp add: part_opts_fields)
  qed
  have owner: "\<exists>partNumber events sent.
           (partNumber, events, sent) \<in> set (c_results c)
         \<and> Request (PostPart url q) \<in> set events"
    if "Request (PostPart url q) \<in> set (snd (UploadFile u env filePath destDir))" for url q
    using part_upload_of_task [OF c that] .
  have once: "filter is_network events = [Request (PostPart url q)]
         \<and> sent = (case postPart env url q of
                     Answers status partFile \<Rightarrow> if status = 201 then Some partFile else None
                   | Fails err r v \<Rightarrow> None)
         \<and> ((\<exists>err r v. postPart env url q = Fails err r v) \<longrightarrow>
               Log ErrorLevel ''send part file failed'' \<in> set events)
         \<and> (\<forall>partNumber' events' sent' url' q'.
               (partNumber', events', sent') \<in> set (c_results c)
               \<and> Request (PostPart url' q') \<in> set events'
               \<and> q_partNo q' = q_partNo q \<longrightarrow>
               partNumber' = partNumber \<and> events' = events \<and> sent' = sent)"
    if "(partNumber, events, sent) \<in> set (c_results c)
         \<and> Request (PostPart url q) \<in> set events"
    for partNumber events sent url q
  proof -
    from that have member: "(partNumber, events, sent) \<in> set (c_results c)"
      and request: "Request (PostPart url q) \<in> set events"
      by simp_all
    from reached_task [OF c member] obtain name s e where
      task: "part_task u env name (c_uploadURL c) (c_existingParts c) (c_totalParts c)
         (c_channelID c) (c_encryptFile c) partNumber s e = (events, sent)"
      by blast
    note facts = task_request [OF task request]
    have same: "partNumber' = partNumber \<and> events' = events \<and> sent' = sent"
      if other: "(partNumber', events', sent') \<in> set (c_results c)
               \<and> Request (PostPart url' q') \<in> set events'
               \<and> q_partNo q' = q_partNo q"
      for partNumber' events' sent' url' q'
    proof -
      have "q_partNo q' = partNumber' + 1" using other number by blast
      moreover have "q_partNo q = partNumber + 1" using member request by (rule number)
      ultimately have eq: "partNumber' = partNumber" using other by simp
      with other have "(partNumber, events', sent') \<in> set (c_results c)" by simp
      with distinct have "(events', sent') = (events, sent)"
        using member by (rule eq_key_imp_eq_value)
      with eq show ?thesis by simp
    qed
    from facts same show ?thesis by blast
  qed
  from owner once
  show "(\<forall>url q.
        Request (PostPart url q) \<in> set (snd (UploadFile u env filePath destDir)) \<longrightarrow>
        (\<exists>partNumber events sent.
           (partNumber, events, sent) \<in> set (c_results c)
         \<and> Request (PostPart url q) \<in> set events))
   \<and> (\<forall>partNumber events sent url q.
         (partNumber, events, sent) \<in> set (c_results c)
         \<and> Request (PostPart url q) \<in> set events \<longrightarrow>
           filter is_network events = [Request (PostPart url q)]
         \<and> sent = (case postPart env url q of
                     Answers status partFile \<Rightarrow> if status = 201 then Some partFile else None
                   | Fails err r v \<Rightarrow> None)
         \<and> ((\<exists>err r v. postPart env url q = Fails err r v) \<longrightarrow>
               Log ErrorLevel ''send part file failed'' \<in> set events)
         \<and> (\<forall>partNumber' events' sent' url' q'.
               (partNumber', events', sent') \<in> set (c_results c)
               \<and> Request (PostPart url' q') \<in> set events'
               \<and> q_partNo q' = q_partNo q \<longrightarrow>
               partNumber' = partNumber \<and> events' = events \<and> sent' = sent))"
    by blast
qed

text \<open>
  The upload of part 2 fails with an error that \<open>shouldRetry\<close> would retry: the task
  sends the one request, logs the failure and sends no record.
\<close>

theorem part_upload_once_201_witness:
  "(\<exists>c. reached svc0 env_part_fails ''/tmp/hello'' ''/dest'' = Some c
       \<and> (1, [Request (PostPart ''/api/uploads/5d41402abc4b2a76b9719d911017c592''
                 \<lparr>q_partName = ''hello.part'', q_fileName = ''hello'', q_partNo = 2,
                  q_channelId = 7, q_encrypted = False, ContentLength = 2\<rparr>),
               Log ErrorLevel ''send part file failed''], None) \<in> set (c_results c))
   \<and> fst (shouldRetry (postPart env_part_fails ''/api/uploads/5d41402abc4b2a76b9719d911017c592''
                 \<lparr>q_partName = ''hello.part'', q_fileName = ''hello'', q_partNo = 2,
                  q_channelId = 7, q_encrypted = False, ContentLength = 2\<rparr>))
   \<and> filter is_network
        [Request (PostPart ''/api/uploads/5d41402abc4b2a76b9719d911017c592''
                 \<lparr>q_partName = ''hello.part'', q_fileName = ''hello'', q_partNo = 2,
                  q_channelId = 7, q_encrypted = False, ContentLength = 2\<rparr>),
         Log ErrorLevel ''send part file failed'']
       = [Request (PostPart ''/api/uploads/5d41402abc4b2a76b9719d911017c592''
                 \<lparr>q_partName = ''hello.part'', q_fileName = ''hello'', q_partNo = 2,
                  q_channelId = 7, q_encrypted = False, ContentLength = 2\<rparr>)]
   \<and> length (filter is_part_upload
        (snd (UploadFile svc0 env_part_fails ''/tmp/hello'' ''/dest''))) = 3"
proof -
  let ?url = "''/api/uploads/5d41402abc4b2a76b9719d911017c592''"
  let ?q = "\<lparr>q_partName = ''hello.part'', q_fileName = ''hello'', q_partNo = 2,
             q_channelId = 7, q_encrypted = False, ContentLength = 2\<rparr>"
  let ?events = "[Request (PostPart ?url ?q), Log ErrorLevel ''send part file failed'']"
  have "case reached svc0 env_part_fails ''/tmp/hello'' ''/dest'' of
          None \<Rightarrow> False
        | Some c \<Rightarrow> (1, ?events, None) \<in> set (c_results c)"
    by code_simp
  then obtain c where c: "reached svc0 env_part_fails ''/tmp/hello'' ''/dest'' = Some c"
    and task: "(1, ?events, None) \<in> set (c_results c)"
    by (cases "reached svc0 env_part_fails ''/tmp/hello'' ''/dest''") auto
  have request: "Request (PostPart ?url ?q) \<in> set ?events"
    by simp
  have retriable: "fst (shouldRetry (postPart env_part_fails ?url ?q))"
    by code_simp
  from part_upload_once_201 [of svc0 env_part_fails "''/tmp/hello''" "''/dest''"]
    c task request
  have once: "filter is_network ?events = [Request (PostPart ?url ?q)]"
    by blast
  have three: "length (filter is_part_upload
        (snd (UploadFile svc0 env_part_fails ''/tmp/hello'' ''/dest''))) = 3"
    by code_simp
  from c task retriable once three show ?thesis by blast
qed

text \<open>
  C7 as stated says that every dropped part is logged. A part upload answered with
  status 200 and no error is dropped without a log entry of the task: the only entries
  of the run are the existence check, the two parts sent, and the final error.
\<close>

theorem part_dropped_silently_counterexample:
  "reached svc0 env_status_200 ''/tmp/hello'' ''/dest'' \<noteq> None
   \<and> postPart env_status_200 ''/api/uploads/5d41402abc4b2a76b9719d911017c592''
        \<lparr>q_partName = ''hello.part'', q_fileName = ''hello'', q_partNo = 2,
         q_channelId = 7, q_encrypted = False, ContentLength = 2\<rparr>
       = Answers 200
          (ack \<lparr>q_partName = ''hello.part'', q_fileName = ''hello'', q_partNo = 2,
                q_channelId = 7, q_encrypted = False, ContentLength = 2\<rparr>)
   \<and> (1, [Request (PostPart ''/api/uploads/5d41402abc4b2a76b9719d911017c592''
              \<lparr>q_partName = ''hello.part'', q_fileName = ''hello'', q_partNo = 2,
               q_channelId = 7, q_encrypted = False, ContentLength = 2\<rparr>)], None)
       \<in> set (c_results (the (reached svc0 env_status_200 ''/tmp/hello'' ''/dest'')))
   \<and> filter is_log (snd (UploadFile svc0 env_status_200 ''/tmp/hello'' ''/dest''))
       = [Log DebugLevel ''checking file exists'', Log DebugLevel ''part file sent'',
          Log DebugLevel ''part file sent'', Log ErrorLevel ''uploaded parts incomplete'']"
  by code_simp

lemma pool_next_inv:
  assumes "0 \<le> numWorkers u" and "pool_inv u s" and "pool_next u a s = Some s'"
  shows "pool_inv u s'"
proof (cases a)
  case (StartFile planned)
  with assms show ?thesis
    by (auto simp add: pool_inv_def split: if_splits)
next
  case (StartPart k)
  with assms(3) have s': "s' = s[k := (s ! k)\<lparr>u_next := u_next (s ! k) + 1,
                                u_workers := Suc (u_workers (s ! k))\<rparr>]"
    and free: "int (u_workers (s ! k)) < numWorkers u"
    by (simp_all split: if_splits)
  have "set s' \<subseteq> insert ((s ! k)\<lparr>u_next := u_next (s ! k) + 1,
                                u_workers := Suc (u_workers (s ! k))\<rparr>) (set s)"
    unfolding s' by (rule set_update_subset_insert)
  with assms(2) free show ?thesis
    by (auto simp add: pool_inv_def s')
next
  case (EndPart k)
  with assms(3) have s': "s' = s[k := (s ! k)\<lparr>u_workers := u_workers (s ! k) - 1\<rparr>]"
    and k: "k < length s"
    by (simp_all split: if_splits)
  have "set s' \<subseteq> insert ((s ! k)\<lparr>u_workers := u_workers (s ! k) - 1\<rparr>) (set s)"
    unfolding s' by (rule set_update_subset_insert)
  moreover have "int (u_workers (s ! k)) \<le> numWorkers u"
    using assms(2) k by (simp add: pool_inv_def)
  ultimately show ?thesis
    using assms(2) by (auto simp add: pool_inv_def s')
next
  case (EndFile k)
  with assms(3) have s': "s' = take k s @ drop (Suc k) s" and k: "k < length s"
    by (simp_all split: if_splits)
  have "set s' \<subseteq> set s"
    unfolding s' using set_take_subset [of k s] set_drop_subset [of "Suc k" s] by auto
  moreover have "length s' \<le> length s"
    unfolding s' using k by simp
  ultimately show ?thesis
    using assms(2) by (auto simp add: pool_inv_def)
qed

lemma pool_run_inv:
  assumes "0 \<le> numWorkers u"
  shows "pool_inv u s \<Longrightarrow> pool_run u steps s = Some s' \<Longrightarrow> pool_inv u s'"
proof (induction steps arbitrary: s)
  case Nil
  then show ?case by simp
next
  case (Cons a steps)
  from Cons.prems(2) obtain t where t: "pool_next u a s = Some t"
    and rest: "pool_run u steps t = Some s'"
    by (auto split: option.splits)
  from assms Cons.prems(1) t have "pool_inv u t" by (rule pool_next_inv)
  then show ?case using rest by (rule Cons.IH)
qed

lemma sum_list_bounded: "\<forall>x\<in>set xs. f x \<le> (n::nat) \<Longrightarrow> sum_list (map f xs) \<le> length xs * n"
  by (induction xs) auto


text \<open>
  C5, as amended. The pool of part workers is made by each call of \<open>UploadFile\<close>, so
  its size bounds the part tasks in flight of one file; the pool of files, made once,
  bounds the calls in flight. In every state that the walker and its uploads reach, no
  file has more than \<open>numWorkers\<close> part tasks in flight, no more than
  \<open>concurrentFiles\<close> files are in flight, and so the part tasks in flight over all
  files are at most the product of the two sizes.
\<close>

theorem pools_bound:
  assumes "0 \<le> numWorkers u" and "0 \<le> concurrentFiles u"
    and "pool_run u steps [] = Some s"
  shows "(\<forall>f\<in>set s. int (u_workers f) \<le> numWorkers u)
       \<and> int (length s) \<le> concurrentFiles u
       \<and> int (in_flight s) \<le> concurrentFiles u * numWorkers u"
proof -
  have "pool_inv u []"
    using assms(2) by (simp add: pool_inv_def)
  with assms(1) have inv: "pool_inv u s"
    using assms(3) by (rule pool_run_inv)
  then have each: "\<forall>f\<in>set s. u_workers f \<le> nat (numWorkers u)"
    and files: "int (length s) \<le> concurrentFiles u"
    by (auto simp add: pool_inv_def)
  from each have "in_flight s \<le> length s * nat (numWorkers u)"
    unfolding in_flight_def by (rule sum_list_bounded)
  then have "int (in_flight s) \<le> int (length s) * numWorkers u"
    using assms(1) by (metis int_nat_eq of_nat_mono of_nat_mult)
  also have "\<dots> \<le> concurrentFiles u * numWorkers u"
    using files assms(1) by (rule mult_right_mono)
  finally show ?thesis
    using inv by (simp add: pool_inv_def)
qed

theorem pools_bound_witness:
  "0 \<le> numWorkers svc_one_worker \<and> 0 \<le> concurrentFiles svc_one_worker
   \<and> pool_run svc_one_worker [StartFile 1, StartFile 1, StartPart 0, StartPart 1] []
       = Some [\<lparr>u_totalParts = 1, u_next = 1, u_workers = 1\<rparr>,
               \<lparr>u_totalParts = 1, u_next = 1, u_workers = 1\<rparr>]
   \<and> int (in_flight [\<lparr>u_totalParts = 1, u_next = 1, u_workers = 1\<rparr>,
                      \<lparr>u_totalParts = 1, u_next = 1, u_workers = 1\<rparr>])
       \<le> concurrentFiles svc_one_worker * numWorkers svc_one_worker"
proof -
  have workers: "0 \<le> numWorkers svc_one_worker"
    by (simp add: svc_one_worker_def)
  have files: "0 \<le> concurrentFiles svc_one_worker"
    by (simp add: svc_one_worker_def)
  have reached: "pool_run svc_one_worker [StartFile 1, StartFile 1, StartPart 0, StartPart 1] []
       = Some [\<lparr>u_totalParts = 1, u_next = 1, u_workers = 1\<rparr>,
               \<lparr>u_totalParts = 1, u_next = 1, u_workers = 1\<rparr>]"
    by code_simp
  from pools_bound [OF workers files reached] workers files reached
  show ?thesis by blast
qed

text \<open>
  C5 as stated fails: with one part worker and two concurrent files, each of two
  uploads has a part task in flight, two in all, more than the size of the pool.
\<close>

theorem shared_pool_counterexample:
  "numWorkers svc_one_worker = 1
   \<and> pool_run svc_one_worker [StartFile 1, StartFile 1, StartPart 0, StartPart 1] []
       = Some [\<lparr>u_totalParts = 1, u_next = 1, u_workers = 1\<rparr>,
               \<lparr>u_totalParts = 1, u_next = 1, u_workers = 1\<rparr>]
   \<and> in_flight [\<lparr>u_totalParts = 1, u_next = 1, u_workers = 1\<rparr>,
                 \<lparr>u_totalParts = 1, u_next = 1, u_workers = 1\<rparr>] = 2
   \<and> \<not> int (in_flight [\<lparr>u_totalParts = 1, u_next = 1, u_workers = 1\<rparr>,
                         \<lparr>u_totalParts = 1, u_next = 1, u_workers = 1\<rparr>])
         \<le> numWorkers svc_one_worker"
  by code_simp

end
